theory Spec2Isabelle
  imports Main "HOL-Library.Signed_Division"
begin

section \<open>NvFBC display capture of \<^verbatim>\<open>src/platform/linux/cuda.cpp\<close>\<close>

text \<open>
  The capture backend talks to three things outside the program: the NvFBC driver
  (through the function table \<^verbatim>\<open>func\<close>), the CUDA texture of an image
  (\<^verbatim>\<open>tex_t::copy\<close>) and the steady clock. They are modelled as a \<open>world\<close> that is
  passed through every operation: it holds the answers the outside will give (one
  stream per kind of call, indexed by the number of calls made so far), the clock, and
  the trace of everything the program asked for, in order.

  Log lines of severity \<^verbatim>\<open>warning\<close> are recorded; \<^verbatim>\<open>info\<close>, \<^verbatim>\<open>debug\<close> and
  \<^verbatim>\<open>error\<close> lines, and the error strings fetched for them, are left out.
  The build variant (\<^verbatim>\<open>#ifdef NVFBC_TOSYS\<close>) is the parameter \<open>tosys\<close>.
\<close>

subsection \<open>Driver types\<close>

text \<open>
  Modelled from the spec: the types of NvFBC.h, which is not among the sources. The
  records keep the members the code reads or writes; the spec (its data model and its
  driver boundary) names the same ones: outputs with id, name and region, the two
  capability flags, and the capture configuration.

  \<^verbatim>\<open>NVFBCSTATUS\<close>: the code tests a status for being non-zero and for being
  \<^verbatim>\<open>NVFBC_ERR_MUST_RECREATE\<close>, so the enum is kept up to these distinctions.
\<close>

datatype NVFBCSTATUS = NVFBC_SUCCESS | NVFBC_ERR_MUST_RECREATE | NVFBC_ERR_OTHER nat

datatype NVFBC_CAPTURE_TYPE = NVFBC_CAPTURE_TO_SYS | NVFBC_CAPTURE_SHARED_CUDA

datatype NVFBC_TRACKING_TYPE =
  NVFBC_TRACKING_DEFAULT | NVFBC_TRACKING_OUTPUT | NVFBC_TRACKING_SCREEN

text \<open>The members of a box and of a size are \<^verbatim>\<open>uint32_t\<close>: naturals below \<open>2 ^ 32\<close>.\<close>

record NVFBC_BOX =
  box_x :: nat
  box_y :: nat
  box_w :: nat
  box_h :: nat

record NVFBC_SIZE =
  size_w :: nat
  size_h :: nat

record NVFBC_OUTPUT =
  dwId :: nat
  output_name :: string
  trackedBox :: NVFBC_BOX

record NVFBC_GET_STATUS_PARAMS =
  bIsCapturePossible :: bool
  bXRandRAvailable :: bool
  dwOutputNum :: nat
  outputs :: "NVFBC_OUTPUT list"
  screenSize :: NVFBC_SIZE

record NVFBC_CREATE_CAPTURE_SESSION_PARAMS =
  eCaptureType :: NVFBC_CAPTURE_TYPE
  eTrackingType :: NVFBC_TRACKING_TYPE
  dwOutputId :: nat
  dwSamplingRateMs :: int
  bDisableAutoModesetRecovery :: bool
  bPushModel :: bool
  bWithCursor :: bool
  bAllowDirectCapture :: bool

subsection \<open>The outside world\<close>

text \<open>What the program asks of the outside, as it appears in the trace.\<close>

datatype event =
  NvFBCCreateHandle
  | NvFBCGetStatus
  | NvFBCCreateCaptureSession NVFBC_CREATE_CAPTURE_SESSION_PARAMS
  | NvFBCToCudaSetUp
  | NvFBCToSysSetUp
  | NvFBCDestroyCaptureSession
  | NvFBCDestroyHandle
  | NvFBCBindContext
  | NvFBCReleaseContext
  | NvFBCGrabFrame nat
  | TexCopy nat int int
  | SleepFor int
  | SnapshotCb

datatype warning =
  Warn_monitor_out_of_range int int
  | Warn_xrandr_unavailable

text \<open>
  The answer of the driver to a call other than a frame grab: its status and what it
  writes through the pointers it was handed (\<open>out_buffer = None\<close>: \<^verbatim>\<open>*ppBuffer\<close> is
  left alone).
\<close>

record call_reply =
  status :: NVFBCSTATUS
  out_handle :: nat
  out_status :: NVFBC_GET_STATUS_PARAMS
  out_buffer :: "nat option"

text \<open>The answer to a frame grab: status, \<^verbatim>\<open>info.bDirectCapture\<close>, the device pointer.\<close>

record grab_reply =
  grab_status :: NVFBCSTATUS
  bDirectCapture :: bool
  device_ptr :: nat

record world =
  clock :: int
  drift :: "nat \<Rightarrow> nat"
  nreads :: nat
  call_replies :: "nat \<Rightarrow> call_reply"
  ncalls :: nat
  grab_replies :: "nat \<Rightarrow> grab_reply"
  ngrabs :: nat
  copy_replies :: "nat \<Rightarrow> int"
  ncopies :: nat
  nsinks :: nat
  trace :: "event list"
  warnings :: "warning list"

text \<open>A call through \<^verbatim>\<open>func\<close> other than a grab: the next answer of \<open>call_replies\<close>.\<close>

definition nvfbc_call :: "event \<Rightarrow> world \<Rightarrow> call_reply \<times> world" where
  "nvfbc_call e w =
     (call_replies w (ncalls w), w\<lparr>ncalls := Suc (ncalls w), trace := trace w @ [e]\<rparr>)"

text \<open>\<^verbatim>\<open>func.nvFBCToCudaGrabFrame\<close> / \<^verbatim>\<open>func.nvFBCToSysGrabFrame\<close> with \<^verbatim>\<open>dwTimeoutMs\<close>.\<close>

definition grab_frame :: "nat \<Rightarrow> world \<Rightarrow> grab_reply \<times> world" where
  "grab_frame timeout_ms w =
     (grab_replies w (ngrabs w),
      w\<lparr>ngrabs := Suc (ngrabs w), trace := trace w @ [NvFBCGrabFrame timeout_ms]\<rparr>)"

text \<open>
  Modelled from the spec: \<^verbatim>\<open>tex_t::copy\<close> (defined in cuda.cu, which is not among the
  sources), the device-to-device copy of a captured frame into the texture of the
  image. Its result is an \<^verbatim>\<open>int\<close>, zero on success, and is an answer of the outside.
\<close>

definition tex_copy :: "nat \<Rightarrow> int \<Rightarrow> int \<Rightarrow> world \<Rightarrow> int \<times> world" where
  "tex_copy src h pitch w =
     (copy_replies w (ncopies w),
      w\<lparr>ncopies := Suc (ncopies w), trace := trace w @ [TexCopy src h pitch]\<rparr>)"

text \<open>
  \<^verbatim>\<open>std::chrono::steady_clock::now()\<close>, in nanoseconds. Between two readings the clock
  advances by what the program slept plus whatever else the outside took (\<open>drift\<close>, one
  value per reading): driver calls, the callback, oversleeping.
\<close>

definition steady_now :: "world \<Rightarrow> int \<times> world" where
  "steady_now w =
     (let c = clock w + int (drift w (nreads w))
      in (c, w\<lparr>clock := c, nreads := Suc (nreads w)\<rparr>))"

text \<open>\<^verbatim>\<open>std::this_thread::sleep_for\<close>: blocks for at least the duration given.\<close>

definition sleep_for :: "int \<Rightarrow> world \<Rightarrow> world" where
  "sleep_for ns w = w\<lparr>clock := clock w + max 0 ns, trace := trace w @ [SleepFor ns]\<rparr>"

definition warn :: "warning \<Rightarrow> world \<Rightarrow> world" where
  "warn m w = w\<lparr>warnings := warnings w @ [m]\<rparr>"

subsection \<open>\<^verbatim>\<open>cuda::nvfbc::handle_t\<close>\<close>

text \<open>
  \<^verbatim>\<open>handle_flags\<close> is a \<^verbatim>\<open>std::bitset<MAX_FLAGS>\<close> with the two bits
  \<^verbatim>\<open>SESSION_HANDLE\<close> and \<^verbatim>\<open>SESSION_CAPTURE\<close>; \<open>pBuffer = 0\<close> is \<^verbatim>\<open>NULL\<close>.
\<close>

record handle_t =
  SESSION_HANDLE :: bool
  SESSION_CAPTURE :: bool
  handle_id :: nat
  pBuffer :: nat

text \<open>
  \<^verbatim>\<open>handle_t::make\<close> (the record package owns the name \<open>make\<close>): the local handle is default-constructed (no flag set,
  \<^verbatim>\<open>pBuffer = NULL\<close>) and moved into the optional on success.
\<close>

definition handle_make :: "world \<Rightarrow> handle_t option \<times> world" where
  "handle_make w =
     (let (r, w1) = nvfbc_call NvFBCCreateHandle w
      in if status r \<noteq> NVFBC_SUCCESS then (None, w1)
         else (Some \<lparr>SESSION_HANDLE = True, SESSION_CAPTURE = False,
                     handle_id = out_handle r, pBuffer = 0\<rparr>, w1))"

definition handle_status :: "handle_t \<Rightarrow> world \<Rightarrow> NVFBC_GET_STATUS_PARAMS option \<times> world" where
  "handle_status h w =
     (let (r, w1) = nvfbc_call NvFBCGetStatus w
      in if status r \<noteq> NVFBC_SUCCESS then (None, w1) else (Some (out_status r), w1))"

text \<open>
  \<^verbatim>\<open>handle_t::capture\<close>. In the to-system build the set-up call is handed
  \<^verbatim>\<open>&pBuffer\<close>, and the driver stores the frame buffer's address through it.
\<close>

definition handle_capture ::
  "bool \<Rightarrow> NVFBC_CREATE_CAPTURE_SESSION_PARAMS \<Rightarrow> handle_t \<Rightarrow> world \<Rightarrow> int \<times> handle_t \<times> world"
where
  "handle_capture tosys capture_params h w =
     (let (r, w1) = nvfbc_call (NvFBCCreateCaptureSession capture_params) w
      in if status r \<noteq> NVFBC_SUCCESS then (-1, h, w1)
         else
           let h1 = h\<lparr>SESSION_CAPTURE := True\<rparr>
           in if \<not> tosys then
                (let (r2, w2) = nvfbc_call NvFBCToCudaSetUp w1
                 in if status r2 \<noteq> NVFBC_SUCCESS then (-1, h1, w2) else (0, h1, w2))
              else
                (let (r2, w2) = nvfbc_call NvFBCToSysSetUp w1;
                     h2 = (case out_buffer r2 of None \<Rightarrow> h1 | Some p \<Rightarrow> h1\<lparr>pBuffer := p\<rparr>)
                 in if status r2 \<noteq> NVFBC_SUCCESS then (-1, h2, w2) else (0, h2, w2)))"

definition stop :: "handle_t \<Rightarrow> world \<Rightarrow> int \<times> handle_t \<times> world" where
  "stop h w =
     (if \<not> SESSION_CAPTURE h then (0, h, w)
      else
        let (r, w1) = nvfbc_call NvFBCDestroyCaptureSession w
        in if status r \<noteq> NVFBC_SUCCESS then (-1, h, w1)
           else (0, h\<lparr>SESSION_CAPTURE := False\<rparr>, w1))"

text \<open>
  \<^verbatim>\<open>handle_t::reset\<close>: the result of \<^verbatim>\<open>stop()\<close> is dropped, a failure of
  \<^verbatim>\<open>nvFBCDestroyHandle\<close> is only logged. It is also the destructor.
\<close>

definition reset :: "handle_t \<Rightarrow> world \<Rightarrow> int \<times> handle_t \<times> world" where
  "reset h w =
     (if \<not> SESSION_HANDLE h then (0, h, w)
      else
        let (rc, h1, w1) = stop h w;
            (r, w2) = nvfbc_call NvFBCDestroyHandle w1
        in (0, h1\<lparr>SESSION_HANDLE := False\<rparr>, w2))"

text \<open>\<open>reset\<close> called \<open>n\<close> times in a row on the same handle.\<close>

fun reset_times :: "nat \<Rightarrow> handle_t \<Rightarrow> world \<Rightarrow> int \<times> handle_t \<times> world" where
  "reset_times 0 h w = (0, h, w)"
| "reset_times (Suc n) h w = (let (rc, h1, w1) = reset h w in reset_times n h1 w1)"

subsection \<open>\<^verbatim>\<open>cuda::nvfbc::display_t\<close>\<close>

text \<open>
  Modelled from the spec: \<^verbatim>\<open>platf::capture_e\<close> (common.h, not among the sources), the
  four-way status \<open>Ok\<close>, \<open>Reinit\<close>, \<open>Timeout\<close>, \<open>Error\<close>. The \<^verbatim>\<open>default:\<close> branch of
  the switch in \<^verbatim>\<open>capture\<close> has no value left to take.
\<close>

datatype capture_e = capture_ok | capture_reinit | capture_timeout | capture_error

text \<open>
  \<^verbatim>\<open>cuda::img_t\<close>: \<open>data = 0\<close> is the null pointer; \<open>tex\<close> is the device pointer the
  texture was last filled from (\<open>None\<close>: never).
\<close>

record img_t =
  data :: nat
  img_width :: int
  img_height :: int
  pixel_pitch :: int
  row_pitch :: int
  tex :: "nat option"

text \<open>Durations (\<open>delay\<close>) and time points are nanoseconds.\<close>

record display_t =
  width :: int
  height :: int
  offset_x :: int
  offset_y :: int
  env_width :: int
  env_height :: int
  delay :: int
  cursor_visible :: bool
  handle :: handle_t
  capture_params :: NVFBC_CREATE_CAPTURE_SESSION_PARAMS

text \<open>\<^verbatim>\<open>NVFBC_CREATE_CAPTURE_SESSION_PARAMS { NVFBC_CREATE_CAPTURE_SESSION_PARAMS_VER }\<close>:
  every other member is zero.\<close>

definition zero_capture_params :: NVFBC_CREATE_CAPTURE_SESSION_PARAMS where
  "zero_capture_params =
     \<lparr>eCaptureType = NVFBC_CAPTURE_TO_SYS, eTrackingType = NVFBC_TRACKING_DEFAULT,
      dwOutputId = 0, dwSamplingRateMs = 0, bDisableAutoModesetRecovery = False,
      bPushModel = False, bWithCursor = False, bAllowDirectCapture = False\<rparr>"

text \<open>
  The conversion of a \<^verbatim>\<open>uint32_t\<close> to \<^verbatim>\<open>int\<close> (32 bits, two's complement), as in
  \<^verbatim>\<open>width = output.trackedBox.w\<close>: values from \<open>2 ^ 31\<close> on come out negative.
\<close>

definition to_int :: "nat \<Rightarrow> int" where
  "to_int u = (let m = int (u mod 2 ^ 32) in if m < 2 ^ 31 then m else m - 2 ^ 32)"

text \<open>
  The selection of the monitor in \<^verbatim>\<open>init\<close> (lines 476 to 491). \<^verbatim>\<open>util::from_view\<close>
  (utility.h, not among the sources) is the parameter \<open>from_view\<close>. The upper bound in
  the warning is computed in \<^verbatim>\<open>uint32_t\<close>.
\<close>

definition select_monitor ::
  "(string \<Rightarrow> int) \<Rightarrow> string \<Rightarrow> NVFBC_GET_STATUS_PARAMS \<Rightarrow> world \<Rightarrow> int \<times> world"
where
  "select_monitor from_view display_name status_params w =
     (if display_name \<noteq> [] then
        if bXRandRAvailable status_params then
          let monitor_nr = from_view display_name
          in if monitor_nr < 0 \<or> monitor_nr \<ge> int (dwOutputNum status_params)
             then (-1, warn (Warn_monitor_out_of_range monitor_nr
                              ((int (dwOutputNum status_params) - 1) mod 2 ^ 32)) w)
             else (monitor_nr, w)
        else (-1, warn Warn_xrandr_unavailable w)
      else (-1, w))"

text \<open>
  \<^verbatim>\<open>display_t::init\<close>. \<open>None\<close>: the call has no defined result (division by a zero
  frame rate, or a read past the end of \<^verbatim>\<open>outputs\<close>). The local handle is destroyed
  when the function is left: after the move assignment (a swap of flags and handle) it
  holds what the display held before.
\<close>

definition init ::
  "bool \<Rightarrow> (string \<Rightarrow> int) \<Rightarrow> string \<Rightarrow> int \<Rightarrow> display_t \<Rightarrow> world
   \<Rightarrow> (int \<times> display_t \<times> world) option"
where
  "init tosys from_view display_name framerate d w =
     (case handle_make w of
        (None, w1) \<Rightarrow> Some (-1, d, w1)
      | (Some h, w1) \<Rightarrow>
          (case handle_status h w1 of
             (None, w2) \<Rightarrow> (let (rc, h', w3) = reset h w2 in Some (-1, d, w3))
           | (Some status_params, w2) \<Rightarrow>
               (let (streamedMonitor, w3) = select_monitor from_view display_name status_params w2
                in if framerate = 0 then None
                   else if streamedMonitor \<noteq> -1
                           \<and> \<not> nat streamedMonitor < length (outputs status_params) then None
                   else
                     let d1 = d\<lparr>delay := 1000000000 sdiv framerate\<rparr>;
                         cp = zero_capture_params
                                \<lparr>eCaptureType := (if \<not> tosys then NVFBC_CAPTURE_SHARED_CUDA
                                                   else NVFBC_CAPTURE_TO_SYS),
                                 bDisableAutoModesetRecovery := True,
                                 dwSamplingRateMs := (1000 sdiv framerate) mod 2 ^ 32\<rparr>;
                         d2 = (if streamedMonitor \<noteq> -1 then
                                 let output = outputs status_params ! nat streamedMonitor
                                 in d1\<lparr>width := to_int (box_w (trackedBox output)),
                                       height := to_int (box_h (trackedBox output)),
                                       offset_x := to_int (box_x (trackedBox output)),
                                       offset_y := to_int (box_y (trackedBox output)),
                                       capture_params := cp\<lparr>eTrackingType := NVFBC_TRACKING_OUTPUT,
                                                            dwOutputId := dwId output\<rparr>\<rparr>
                               else
                                 d1\<lparr>capture_params := cp\<lparr>eTrackingType := NVFBC_TRACKING_SCREEN\<rparr>,
                                    width := to_int (size_w (screenSize status_params)),
                                    height := to_int (size_h (screenSize status_params))\<rparr>);
                         d3 = d2\<lparr>env_width := to_int (size_w (screenSize status_params)),
                                 env_height := to_int (size_h (screenSize status_params))\<rparr>;
                         old = handle d;
                         d4 = d3\<lparr>handle := old\<lparr>SESSION_HANDLE := SESSION_HANDLE h,
                                                  SESSION_CAPTURE := SESSION_CAPTURE h,
                                                  handle_id := handle_id h\<rparr>\<rparr>;
                         (rc, h', w4) = reset (h\<lparr>SESSION_HANDLE := SESSION_HANDLE old,
                                                 SESSION_CAPTURE := SESSION_CAPTURE old,
                                                 handle_id := handle_id old\<rparr>) w3
                     in Some (0, d4, w4))))"

text \<open>
  The probing loop of \<^verbatim>\<open>reinit\<close> (lines 622 to 642), by the number of attempts
  left (\<open>3 - x\<close>): \<open>Inl\<close> is the status \<^verbatim>\<open>reinit\<close> returns from inside the loop,
  \<open>Inr\<close> is \<^verbatim>\<open>info.bDirectCapture\<close> when the loop is left.
\<close>

fun probe :: "nat \<Rightarrow> world \<Rightarrow> (capture_e + bool) \<times> world" where
  "probe 0 w = (Inr False, w)"
| "probe (Suc n) w =
     (let (g, w1) = grab_frame 0 w
      in if grab_status g \<noteq> NVFBC_SUCCESS then
           (if grab_status g = NVFBC_ERR_MUST_RECREATE then (Inl capture_reinit, w1)
            else (Inl capture_error, w1))
         else if bDirectCapture g then (Inr True, w1)
         else probe n w1)"

definition reinit :: "bool \<Rightarrow> bool \<Rightarrow> display_t \<Rightarrow> world \<Rightarrow> capture_e \<times> display_t \<times> world" where
  "reinit tosys cursor d w =
     (let (rc, h1, w1) = stop (handle d) w;
          d1 = d\<lparr>handle := h1\<rparr>
      in if rc \<noteq> 0 then (capture_error, d1, w1)
         else
           let cp = (if cursor
                     then (capture_params d1)\<lparr>bPushModel := False, bWithCursor := True,
                                               bAllowDirectCapture := False\<rparr>
                     else (capture_params d1)\<lparr>bPushModel := True, bWithCursor := False,
                                               bAllowDirectCapture := True\<rparr>);
               d2 = d1\<lparr>cursor_visible := cursor, capture_params := cp\<rparr>;
               (rc2, h2, w2) = handle_capture tosys cp (handle d2) w1;
               d3 = d2\<lparr>handle := h2\<rparr>
           in if rc2 \<noteq> 0 then (capture_error, d3, w2)
              else if bAllowDirectCapture (capture_params d3) then
                (case probe 3 w2 of
                   (Inl st, w3) \<Rightarrow> (st, d3, w3)
                 | (Inr direct, w3) \<Rightarrow>
                     if \<not> direct then
                       let cp' = (capture_params d3)\<lparr>bPushModel := False, bWithCursor := False,
                                                       bAllowDirectCapture := False\<rparr>;
                           d4 = d3\<lparr>capture_params := cp'\<rparr>;
                           (rc3, h3, w4) = stop (handle d4) w3;
                           d5 = d4\<lparr>handle := h3\<rparr>
                       in if rc3 \<noteq> 0 then (capture_error, d5, w4)
                          else
                            let (rc4, h4, w5) = handle_capture tosys cp' (handle d5) w4;
                                d6 = d5\<lparr>handle := h4\<rparr>
                            in if rc4 \<noteq> 0 then (capture_error, d6, w5)
                               else (capture_ok, d6, w5)
                     else (capture_ok, d3, w3))
              else (capture_ok, d3, w2))"

text \<open>
  The part of \<^verbatim>\<open>snapshot\<close> after the check of the cursor (lines 671 to 715): one
  grab, the copy into the texture in the CUDA build, and \<^verbatim>\<open>img->data\<close>. The time-out
  is the count of a \<^verbatim>\<open>std::chrono::milliseconds\<close>, cast to \<^verbatim>\<open>std::uint32_t\<close> for the
  driver.
\<close>

definition snapshot_grab ::
  "bool \<Rightarrow> img_t \<Rightarrow> int \<Rightarrow> display_t \<Rightarrow> world \<Rightarrow> capture_e \<times> img_t \<times> display_t \<times> world"
where
  "snapshot_grab tosys i timeout_ms d w =
     (let (g, w1) = grab_frame (nat (timeout_ms mod 2 ^ 32)) w
      in if grab_status g \<noteq> NVFBC_SUCCESS then
           (if grab_status g = NVFBC_ERR_MUST_RECREATE then (capture_reinit, i, d, w1)
            else (capture_error, i, d, w1))
         else if \<not> tosys then
           (let (rc, w2) = tex_copy (device_ptr g) (img_height i) (row_pitch i) w1
            in if rc \<noteq> 0 then (capture_error, i, d, w2)
               else (capture_ok, i\<lparr>tex := Some (device_ptr g), data := pBuffer (handle d)\<rparr>, d, w2))
         else (capture_ok, i\<lparr>data := pBuffer (handle d)\<rparr>, d, w1))"

definition snapshot ::
  "bool \<Rightarrow> img_t \<Rightarrow> int \<Rightarrow> bool \<Rightarrow> display_t \<Rightarrow> world \<Rightarrow> capture_e \<times> img_t \<times> display_t \<times> world"
where
  "snapshot tosys i timeout_ms cursor d w =
     (if cursor \<noteq> cursor_visible d then
        (let (st, d1, w1) = reinit tosys cursor d w
         in if st \<noteq> capture_ok then (st, i, d1, w1)
            else snapshot_grab tosys i timeout_ms d1 w1)
      else snapshot_grab tosys i timeout_ms d w)"

subsection \<open>The frame pump: \<^verbatim>\<open>display_t::capture\<close>\<close>

text \<open>
  The inner loop \<^verbatim>\<open>while(next_frame > now) { sleep_for(1ns); now = now(); }\<close>.
  Each round sleeps at least a nanosecond, so the clock reaches the deadline.
\<close>

function wait_until :: "int \<Rightarrow> int \<Rightarrow> world \<Rightarrow> int \<times> world" where
  "wait_until next_frame now w =
     (if next_frame > now then
        (let w1 = sleep_for 1 w;
             (now1, w2) = steady_now w1
         in wait_until next_frame now1 w2)
      else (now, w))"
  by pat_completeness auto
termination
  by (relation "measure (\<lambda>(nf, now, w). if nf > now then 1 + nat (nf - clock w) else 0)")
     (auto simp: steady_now_def sleep_for_def Let_def)

declare wait_until.simps [simp del]

text \<open>
  The pacing of one round of the pump (lines 545 to 553): read the clock, sleep two
  thirds of what is left, spin until the deadline has passed, and set the next
  deadline. The result is the new \<^verbatim>\<open>next_frame\<close>.
\<close>

definition pace :: "int \<Rightarrow> int \<Rightarrow> world \<Rightarrow> int \<times> world" where
  "pace next_frame dly w =
     (let (now, w1) = steady_now w;
          w2 = (if next_frame > now then sleep_for ((next_frame - now) sdiv 3 * 2) w1 else w1);
          (now', w3) = wait_until next_frame now w2
      in (now' + dly, w3))"

text \<open>
  The state of the loop: the image pointer (\<open>None\<close>: null), the deadline, the display
  and the world.
\<close>

record pump =
  img :: "img_t option"
  next_frame :: int
  disp :: display_t
  wrld :: world

text \<open>
  The callback \<^verbatim>\<open>snapshot_cb\<close> is a closure of the caller: \<open>snapshot_cb k i\<close> is what
  it returns for the image \<open>i\<close> when it has been invoked \<open>k\<close> times before (\<open>None\<close>: a
  null pointer). \<^verbatim>\<open>*cursor\<close> is memory of the caller, which on the one thread of the
  pump only the callback can change: \<open>cursor k\<close> is its value after \<open>k\<close> invocations.
\<close>

definition call_snapshot_cb ::
  "(nat \<Rightarrow> img_t \<Rightarrow> img_t option) \<Rightarrow> img_t \<Rightarrow> world \<Rightarrow> img_t option \<times> world"
where
  "call_snapshot_cb snapshot_cb i w =
     (snapshot_cb (nsinks w) i, w\<lparr>nsinks := Suc (nsinks w), trace := trace w @ [SnapshotCb]\<rparr>)"

text \<open>
  The switch on the status of \<^verbatim>\<open>snapshot\<close> (lines 556 to 569): \<open>Some st\<close> leaves
  \<^verbatim>\<open>capture\<close> with \<open>st\<close>, \<open>None\<close> goes on to the next test of \<^verbatim>\<open>while(img)\<close>.
\<close>

definition dispatch ::
  "(nat \<Rightarrow> img_t \<Rightarrow> img_t option) \<Rightarrow> capture_e \<Rightarrow> img_t \<Rightarrow> pump \<Rightarrow> capture_e option \<times> pump"
where
  "dispatch snapshot_cb st i s =
     (case st of
        capture_reinit \<Rightarrow> (Some st, s)
      | capture_error \<Rightarrow> (Some st, s)
      | capture_timeout \<Rightarrow> (None, s\<lparr>wrld := sleep_for 1000000 (wrld s)\<rparr>)
      | capture_ok \<Rightarrow>
          (let (r, w1) = call_snapshot_cb snapshot_cb i (wrld s)
           in (None, s\<lparr>img := r, wrld := w1\<rparr>)))"

text \<open>One round of \<^verbatim>\<open>while(img)\<close>, entered with the image \<open>i\<close>.\<close>

definition capture_iter ::
  "bool \<Rightarrow> (nat \<Rightarrow> img_t \<Rightarrow> img_t option) \<Rightarrow> (nat \<Rightarrow> bool) \<Rightarrow> img_t \<Rightarrow> pump
   \<Rightarrow> capture_e option \<times> pump"
where
  "capture_iter tosys snapshot_cb cursor i s =
     (let (nf, w1) = pace (next_frame s) (delay (disp s)) (wrld s);
          (st, i1, d1, w2) = snapshot tosys i 150 (cursor (nsinks w1)) (disp s) w1
      in dispatch snapshot_cb st i1 (s\<lparr>img := Some i1, next_frame := nf, disp := d1, wrld := w2\<rparr>))"

text \<open>The call of \<^verbatim>\<open>snapshot\<close> in that round (line 555), after the pacing.\<close>

definition round_snapshot ::
  "bool \<Rightarrow> (nat \<Rightarrow> bool) \<Rightarrow> img_t \<Rightarrow> pump \<Rightarrow> capture_e \<times> img_t \<times> display_t \<times> world"
where
  "round_snapshot tosys cursor i s =
     (let (nf, w1) = pace (next_frame s) (delay (disp s)) (wrld s)
      in snapshot tosys i 150 (cursor (nsinks w1)) (disp s) w1)"

text \<open>
  The loop itself. It need not end (a callback that never returns null, on a driver
  that never fails): \<open>None\<close> is the run that does not return.
\<close>

partial_function (option) capture_loop ::
  "bool \<Rightarrow> (nat \<Rightarrow> img_t \<Rightarrow> img_t option) \<Rightarrow> (nat \<Rightarrow> bool) \<Rightarrow> pump
   \<Rightarrow> (capture_e \<times> pump) option"
where
  "capture_loop tosys snapshot_cb cursor s =
     (case img s of
        None \<Rightarrow> Some (capture_ok, s)
      | Some i \<Rightarrow>
          (case capture_iter tosys snapshot_cb cursor i s of
             (Some st, s') \<Rightarrow> Some (st, s')
           | (None, s') \<Rightarrow> capture_loop tosys snapshot_cb cursor s'))"

declare capture_loop.simps [code]

text \<open>
  The first \<open>n\<close> rounds of the loop, as long as it goes on: \<open>None\<close> when it is left
  before.
\<close>

fun rounds ::
  "nat \<Rightarrow> bool \<Rightarrow> (nat \<Rightarrow> img_t \<Rightarrow> img_t option) \<Rightarrow> (nat \<Rightarrow> bool) \<Rightarrow> pump \<Rightarrow> pump option"
where
  "rounds 0 tosys snapshot_cb cursor s = Some s"
| "rounds (Suc n) tosys snapshot_cb cursor s =
     (case img s of
        None \<Rightarrow> None
      | Some i \<Rightarrow>
          (case capture_iter tosys snapshot_cb cursor i s of
             (Some st, s') \<Rightarrow> None
           | (None, s') \<Rightarrow> rounds n tosys snapshot_cb cursor s'))"

text \<open>
  Entry of \<^verbatim>\<open>capture\<close> (lines 534 to 542): the first deadline is now, the stored
  cursor state is set to the opposite of \<^verbatim>\<open>*cursor\<close>, and \<^verbatim>\<open>ctx_t\<close> binds the
  context (a failure is only logged).
\<close>

definition capture_entry :: "img_t option \<Rightarrow> (nat \<Rightarrow> bool) \<Rightarrow> display_t \<Rightarrow> world \<Rightarrow> pump" where
  "capture_entry i cursor d w =
     (let (next_frame, w1) = steady_now w;
          d1 = d\<lparr>cursor_visible := \<not> cursor (nsinks w1)\<rparr>;
          (r, w2) = nvfbc_call NvFBCBindContext w1
      in \<lparr>img = i, next_frame = next_frame, disp = d1, wrld = w2\<rparr>)"

text \<open>
  Modelled from the spec: \<^verbatim>\<open>util::fail_guard\<close> (utility.h, not among the sources). The
  guard \<^verbatim>\<open>fg\<close> is never disabled, so its function \<^verbatim>\<open>handle.reset()\<close> runs when
  \<^verbatim>\<open>capture\<close> is left, on every path (the session is torn down when the frame pump
  exits); then \<^verbatim>\<open>~ctx_t\<close> releases the context.
\<close>

definition capture_exit :: "display_t \<Rightarrow> world \<Rightarrow> display_t \<times> world" where
  "capture_exit d w =
     (let (rc, h1, w1) = reset (handle d) w;
          (r, w2) = nvfbc_call NvFBCReleaseContext w1
      in (d\<lparr>handle := h1\<rparr>, w2))"

definition capture ::
  "bool \<Rightarrow> (nat \<Rightarrow> img_t \<Rightarrow> img_t option) \<Rightarrow> img_t option \<Rightarrow> (nat \<Rightarrow> bool) \<Rightarrow> display_t \<Rightarrow> world
   \<Rightarrow> (capture_e \<times> display_t \<times> world) option"
where
  "capture tosys snapshot_cb i cursor d w =
     (case capture_loop tosys snapshot_cb cursor (capture_entry i cursor d w) of
        None \<Rightarrow> None
      | Some (st, s) \<Rightarrow>
          (let (d', w') = capture_exit (disp s) (wrld s) in Some (st, d', w')))"

subsection \<open>Frame conditions\<close>

text \<open>The answers the outside will give are the same in both worlds.\<close>

definition same_answers :: "world \<Rightarrow> world \<Rightarrow> bool" where
  "same_answers w w' \<longleftrightarrow>
     drift w' = drift w \<and> call_replies w' = call_replies w
     \<and> grab_replies w' = grab_replies w \<and> copy_replies w' = copy_replies w"

subsection \<open>Concrete drivers and displays for the examples\<close>

definition two_outputs :: NVFBC_GET_STATUS_PARAMS where
  "two_outputs =
     \<lparr>bIsCapturePossible = True, bXRandRAvailable = True, dwOutputNum = 2,
      outputs = [\<lparr>dwId = 61, output_name = ''DP-0'',
                  trackedBox = \<lparr>box_x = 0, box_y = 0, box_w = 1920, box_h = 1080\<rparr>\<rparr>,
                 \<lparr>dwId = 62, output_name = ''HDMI-0'',
                  trackedBox = \<lparr>box_x = 1920, box_y = 0, box_w = 1280, box_h = 1024\<rparr>\<rparr>],
      screenSize = \<lparr>size_w = 3200, size_h = 1080\<rparr>\<rparr>"

definition reply_ok :: call_reply where
  "reply_ok = \<lparr>status = NVFBC_SUCCESS, out_handle = 7, out_status = two_outputs,
               out_buffer = Some 4096\<rparr>"

definition reply_failed :: call_reply where
  "reply_failed = \<lparr>status = NVFBC_ERR_OTHER 1, out_handle = 0, out_status = two_outputs,
                   out_buffer = None\<rparr>"

definition grab_direct :: grab_reply where
  "grab_direct = \<lparr>grab_status = NVFBC_SUCCESS, bDirectCapture = True, device_ptr = 8192\<rparr>"


definition grab_must_recreate :: grab_reply where
  "grab_must_recreate =
     \<lparr>grab_status = NVFBC_ERR_MUST_RECREATE, bDirectCapture = False, device_ptr = 0\<rparr>"

text \<open>A world in which nothing has happened yet.\<close>

definition fresh_world ::
  "(nat \<Rightarrow> nat) \<Rightarrow> (nat \<Rightarrow> call_reply) \<Rightarrow> (nat \<Rightarrow> grab_reply) \<Rightarrow> world"
where
  "fresh_world dr calls grabs =
     \<lparr>clock = 0, drift = dr, nreads = 0, call_replies = calls, ncalls = 0,
      grab_replies = grabs, ngrabs = 0, copy_replies = (\<lambda>k. 0), ncopies = 0, nsinks = 0,
      trace = [], warnings = []\<rparr>"

text \<open>Every call succeeds and every grab is direct.\<close>

definition world_direct :: world where
  "world_direct = fresh_world (\<lambda>k. 0) (\<lambda>k. reply_ok) (\<lambda>k. grab_direct)"



text \<open>
  Binding the context fails (it is the first call of \<open>capture\<close>, and its failure is
  only logged), and so does the eleventh grab; everything else succeeds, and every
  reading of the clock comes 6 ms after the last thing that happened.
\<close>

definition world_flaky :: world where
  "world_flaky =
     fresh_world (\<lambda>k. 6000000) (\<lambda>k. if k = 0 then reply_failed else reply_ok)
       (\<lambda>k. if k = 10 then grab_must_recreate else grab_direct)"

text \<open>Every call other than a grab fails.\<close>

definition world_failing :: world where
  "world_failing = fresh_world (\<lambda>k. 0) (\<lambda>k. reply_failed) (\<lambda>k. grab_direct)"

text \<open>A handle with a capture session, and a display at 60 frames a second around it.\<close>

definition active_handle :: handle_t where
  "active_handle = \<lparr>SESSION_HANDLE = True, SESSION_CAPTURE = True, handle_id = 7, pBuffer = 0\<rparr>"

definition idle_handle :: handle_t where
  "idle_handle = \<lparr>SESSION_HANDLE = True, SESSION_CAPTURE = False, handle_id = 7, pBuffer = 0\<rparr>"

definition display60 :: display_t where
  "display60 =
     \<lparr>width = 1920, height = 1080, offset_x = 0, offset_y = 0, env_width = 3200,
      env_height = 1080, delay = 16666666, cursor_visible = False, handle = idle_handle,
      capture_params = zero_capture_params\<lparr>eCaptureType := NVFBC_CAPTURE_SHARED_CUDA,
                         eTrackingType := NVFBC_TRACKING_SCREEN,
                         bDisableAutoModesetRecovery := True, dwSamplingRateMs := 16\<rparr>\<rparr>"

definition image0 :: img_t where
  "image0 = \<lparr>data = 0, img_width = 1920, img_height = 1080, pixel_pitch = 4, row_pitch = 7680,
             tex = None\<rparr>"

text \<open>No call, grab or copy ever fails.\<close>

definition driver_never_fails :: "world \<Rightarrow> bool" where
  "driver_never_fails w \<longleftrightarrow>
     (\<forall>k. status (call_replies w k) = NVFBC_SUCCESS)
     \<and> (\<forall>k. grab_status (grab_replies w k) = NVFBC_SUCCESS)
     \<and> (\<forall>k. copy_replies w k = 0)"

text \<open>\<^verbatim>\<open>*cursor\<close> constantly false, and constantly true.\<close>

definition cursor_off :: "nat \<Rightarrow> bool" where
  "cursor_off = (\<lambda>k. False)"

definition cursor_on :: "nat \<Rightarrow> bool" where
  "cursor_on = (\<lambda>k. True)"

text \<open>A callback that takes \<open>n\<close> frames: it hands the image back until its \<open>n\<close>-th
  invocation, where it returns null.\<close>

definition sink_frames :: "nat \<Rightarrow> nat \<Rightarrow> img_t \<Rightarrow> img_t option" where
  "sink_frames n = (\<lambda>k i. if Suc k < n then Some i else None)"

text \<open>Every reading of the clock comes 6 ms after the last thing that happened.\<close>

definition world_jitter :: world where
  "world_jitter = fresh_world (\<lambda>k. 6000000) (\<lambda>k. reply_ok) (\<lambda>k. grab_direct)"

text \<open>As \<open>world_jitter\<close>, but every grab asks for the session to be recreated.\<close>

definition world_lost :: world where
  "world_lost = fresh_world (\<lambda>k. 6000000) (\<lambda>k. reply_ok) (\<lambda>k. grab_must_recreate)"

text \<open>The pump as \<open>capture\<close> enters its loop, with the cursor on.\<close>

definition pump_jitter :: pump where
  "pump_jitter = capture_entry (Some image0) cursor_on display60 world_jitter"

definition pump_lost :: pump where
  "pump_lost = capture_entry (Some image0) cursor_on display60 world_lost"


text \<open>A stand-in for \<^verbatim>\<open>util::from_view\<close> on names of one digit.\<close>

definition digit_view :: "string \<Rightarrow> int" where
  "digit_view s = (case s of [c] \<Rightarrow> int (of_char c) - 48 | _ \<Rightarrow> 0)"

section \<open>Properties\<close>

subsection \<open>Frame conditions of the session operations\<close>

lemma same_answers_refl [simp]: "same_answers w w"
  by (simp add: same_answers_def)

lemma same_answers_trans: "same_answers w w1 \<Longrightarrow> same_answers w1 w2 \<Longrightarrow> same_answers w w2"
  by (simp add: same_answers_def)


lemma stop_quiet:
  "stop h w = (rc, h', w') \<Longrightarrow>
     same_answers w w' \<and> nsinks w' = nsinks w \<and> ngrabs w' = ngrabs w \<and> pBuffer h' = pBuffer h"
  by (auto simp: stop_def nvfbc_call_def same_answers_def Let_def split: if_splits)

lemma handle_capture_quiet:
  "handle_capture tosys cp h w = (rc, h', w') \<Longrightarrow>
     same_answers w w' \<and> nsinks w' = nsinks w \<and> ngrabs w' = ngrabs w
     \<and> (\<not> tosys \<longrightarrow> pBuffer h' = pBuffer h)"
  by (auto simp: handle_capture_def nvfbc_call_def same_answers_def Let_def
           split: if_splits option.splits)

text \<open>With a driver whose calls succeed, \<open>stop\<close> and \<open>handle_capture\<close> are these.\<close>

lemma stop_ok:
  "\<forall>k. status (call_replies w k) = NVFBC_SUCCESS \<Longrightarrow>
   stop h w = (0, h\<lparr>SESSION_CAPTURE := False\<rparr>,
               if SESSION_CAPTURE h
               then w\<lparr>ncalls := Suc (ncalls w), trace := trace w @ [NvFBCDestroyCaptureSession]\<rparr>
               else w)"
  by (simp add: stop_def nvfbc_call_def)

lemma handle_capture_ok:
  "\<forall>k. status (call_replies w k) = NVFBC_SUCCESS \<Longrightarrow>
   handle_capture tosys cp h w =
     (0,
      (case (if tosys then out_buffer (call_replies w (Suc (ncalls w))) else None) of
         None \<Rightarrow> h\<lparr>SESSION_CAPTURE := True\<rparr>
       | Some p \<Rightarrow> h\<lparr>SESSION_CAPTURE := True, pBuffer := p\<rparr>),
      w\<lparr>ncalls := Suc (Suc (ncalls w)),
        trace := trace w @ [NvFBCCreateCaptureSession cp,
                            if tosys then NvFBCToSysSetUp else NvFBCToCudaSetUp]\<rparr>)"
  by (simp add: handle_capture_def nvfbc_call_def Let_def split: option.splits)

subsection \<open>The probing loop\<close>

lemma probe_quiet:
  "probe n w = (r, w') \<Longrightarrow>
     same_answers w w' \<and> nsinks w' = nsinks w \<and> ngrabs w \<le> ngrabs w' \<and> ngrabs w' \<le> ngrabs w + n
     \<and> r \<noteq> Inl capture_timeout \<and> r \<noteq> Inl capture_ok"
proof (induction n arbitrary: w)
  case 0
  then show ?case by auto
next
  case (Suc n)
  show ?case
  proof (cases "grab_status (grab_replies w (ngrabs w)) = NVFBC_SUCCESS
                \<and> \<not> bDirectCapture (grab_replies w (ngrabs w))")
    case True
    then have "probe n (snd (grab_frame 0 w)) = (r, w')"
      using Suc.prems by (simp add: grab_frame_def)
    from Suc.IH[OF this] show ?thesis
      by (auto simp: grab_frame_def same_answers_def)
  next
    case False
    then show ?thesis using Suc.prems
      by (auto simp: grab_frame_def same_answers_def split: if_splits)
  qed
qed




subsection \<open>\<open>reinit\<close>\<close>

lemma reinit_quiet:
  assumes "reinit tosys cursor d w = (st, d', w')"
  shows "same_answers w w' \<and> nsinks w' = nsinks w
     \<and> ngrabs w \<le> ngrabs w' \<and> ngrabs w' \<le> ngrabs w + 3
     \<and> (cursor \<longrightarrow> ngrabs w' = ngrabs w)
     \<and> delay d' = delay d \<and> (\<not> tosys \<longrightarrow> pBuffer (handle d') = pBuffer (handle d))
     \<and> st \<noteq> capture_timeout"
proof -
  obtain rc h1 w1 where s: "stop (handle d) w = (rc, h1, w1)"
    by (cases "stop (handle d) w") auto
  note sq = stop_quiet[OF s]
  show ?thesis
  proof (cases "rc = 0")
    case False
    then show ?thesis using assms s sq by (auto simp: reinit_def)
  next
    case rc0: True
    define cp where "cp = (if cursor
                     then (capture_params d)\<lparr>bPushModel := False, bWithCursor := True,
                                               bAllowDirectCapture := False\<rparr>
                     else (capture_params d)\<lparr>bPushModel := True, bWithCursor := False,
                                               bAllowDirectCapture := True\<rparr>)"
    obtain rc2 h2 w2 where c: "handle_capture tosys cp h1 w1 = (rc2, h2, w2)"
      by (cases "handle_capture tosys cp h1 w1") auto
    note cq = handle_capture_quiet[OF c]
    have base: "same_answers w w2" "nsinks w2 = nsinks w" "ngrabs w2 = ngrabs w"
         "\<not> tosys \<longrightarrow> pBuffer h2 = pBuffer (handle d)"
      using sq cq by (auto intro: same_answers_trans)
    show ?thesis
    proof (cases "rc2 = 0 \<and> \<not> cursor")
      case False
      then show ?thesis using assms s rc0 c base
        by (auto simp: reinit_def cp_def Let_def split: if_splits)
    next
      case probing: True
      obtain r w3 where p: "probe 3 w2 = (r, w3)" by (cases "probe 3 w2") auto
      note pq = probe_quiet[OF p]
      have base3: "same_answers w w3" "nsinks w3 = nsinks w"
                  "ngrabs w \<le> ngrabs w3" "ngrabs w3 \<le> ngrabs w + 3"
        using base pq by (auto intro: same_answers_trans)
      show ?thesis
      proof (cases r)
        case (Inl st')
        then show ?thesis using assms s rc0 c probing p base base3 pq
          by (auto simp: reinit_def cp_def Let_def simp del: probe.simps)
      next
        case (Inr direct)
        show ?thesis
        proof (cases direct)
          case True
          then show ?thesis using assms s rc0 c probing p base base3 Inr
            by (auto simp: reinit_def cp_def Let_def simp del: probe.simps)
        next
          case False
          obtain rc3 h3 w4 where s2: "stop h2 w3 = (rc3, h3, w4)" by (cases "stop h2 w3") auto
          note sq2 = stop_quiet[OF s2]
          define cp' where "cp' = cp\<lparr>bPushModel := False, bWithCursor := False,
                                     bAllowDirectCapture := False\<rparr>"
          obtain rc4 h4 w5 where c2: "handle_capture tosys cp' h3 w4 = (rc4, h4, w5)"
            by (cases "handle_capture tosys cp' h3 w4") auto
          note cq2 = handle_capture_quiet[OF c2]
          have base5: "same_answers w w4" "same_answers w w5"
             "\<not> tosys \<longrightarrow> pBuffer h3 = pBuffer (handle d)"
             "\<not> tosys \<longrightarrow> pBuffer h4 = pBuffer (handle d)"
            using base base3 sq2 cq2 by (auto intro: same_answers_trans)
          show ?thesis
            using assms s rc0 c probing p base base3 Inr False s2 c2 sq2 cq2 base5
            by (auto simp: reinit_def cp_def cp'_def Let_def simp del: probe.simps
                     split: if_splits)
        qed
      qed
    qed
  qed
qed


lemma reinit_cursor_ok:
  "\<forall>k. status (call_replies w k) = NVFBC_SUCCESS \<Longrightarrow>
   \<exists>d' w'. reinit tosys True d w = (capture_ok, d', w')
       \<and> capture_params d' = (capture_params d)\<lparr>bPushModel := False, bWithCursor := True,
                                                 bAllowDirectCapture := False\<rparr>
       \<and> cursor_visible d'"
  by (auto simp add: reinit_def stop_ok handle_capture_ok Let_def
        simp del: probe.simps split: option.splits if_splits)


subsection \<open>Resetting the handle, and the probing of \<open>reinit\<close>\<close>

lemma reset_clears_handle: "reset h w = (rc, h', w') \<Longrightarrow> rc = 0 \<and> \<not> SESSION_HANDLE h'"
  by (auto simp: reset_def stop_def nvfbc_call_def Let_def split: if_splits prod.splits)

lemma reset_noop: "\<not> SESSION_HANDLE h \<Longrightarrow> reset h w = (0, h, w)"
  by (simp add: reset_def)

lemma reset_times_noop: "\<not> SESSION_HANDLE h \<Longrightarrow> reset_times n h w = (0, h, w)"
  by (induction n) (simp_all add: reset_noop)

text \<open>
  C3, as the code has it. Calling \<open>reset\<close> one time or more leaves the handle and the world
  as one call does and returns 0; after it \<^verbatim>\<open>SESSION_HANDLE\<close> is clear, and a further
  call does nothing at all (no driver call, result 0). \<^verbatim>\<open>SESSION_CAPTURE\<close> is clear after
  it unless it was set and either the handle flag was clear (nothing is done then) or
  the driver refused to destroy the capture session.
\<close>

theorem reset_idempotent:
  "n \<ge> 1 \<Longrightarrow>
     reset_times n h w = reset h w
   \<and> fst (reset h w) = 0
   \<and> \<not> SESSION_HANDLE (fst (snd (reset h w)))
   \<and> reset (fst (snd (reset h w))) (snd (snd (reset h w))) = (0, snd (reset h w))
   \<and> (SESSION_CAPTURE (fst (snd (reset h w))) \<longleftrightarrow>
        SESSION_CAPTURE h
        \<and> (\<not> SESSION_HANDLE h \<or> status (call_replies w (ncalls w)) \<noteq> NVFBC_SUCCESS))"
proof -
  assume n: "n \<ge> 1"
  obtain rc h' w' where r: "reset h w = (rc, h', w')" by (cases "reset h w")
  from reset_clears_handle[OF r] have rc: "rc = 0" and nh: "\<not> SESSION_HANDLE h'" by auto
  from n obtain m where m: "n = Suc m" by (cases n) auto
  have 1: "reset_times n h w = reset h w" using r rc nh by (simp add: m reset_times_noop)
  have 2: "reset (fst (snd (reset h w))) (snd (snd (reset h w))) = (0, snd (reset h w))"
    using r nh by (simp add: reset_noop)
  have 3: "SESSION_CAPTURE (fst (snd (reset h w))) \<longleftrightarrow>
        SESSION_CAPTURE h
        \<and> (\<not> SESSION_HANDLE h \<or> status (call_replies w (ncalls w)) \<noteq> NVFBC_SUCCESS)"
    by (auto simp: reset_def stop_def nvfbc_call_def Let_def split: if_splits prod.splits)
  show ?thesis using 1 2 3 r rc nh by simp
qed

theorem reset_idempotent_witness:
  "(2::nat) \<ge> 1
   \<and> reset_times 2 active_handle world_direct = reset active_handle world_direct
   \<and> \<not> SESSION_HANDLE (fst (snd (reset active_handle world_direct)))
   \<and> \<not> SESSION_CAPTURE (fst (snd (reset active_handle world_direct)))"
proof -
  have h: "(2::nat) \<ge> 1" by simp
  have s: "status (call_replies world_direct (ncalls world_direct)) = NVFBC_SUCCESS"
    by (simp add: world_direct_def fresh_world_def reply_ok_def)
  show ?thesis using reset_idempotent[OF h, of active_handle world_direct] s
    by (simp add: active_handle_def)
qed

text \<open>
  C3 as stated fails: on a handle with both flags set and a driver that refuses to
  destroy the capture session, \<open>reset\<close> leaves \<^verbatim>\<open>SESSION_CAPTURE\<close> set.
\<close>

theorem reset_keeps_capture_flag:
  "fst (snd (reset active_handle world_failing)) =
     \<lparr>SESSION_HANDLE = False, SESSION_CAPTURE = True, handle_id = 7, pBuffer = 0\<rparr>"
  by (simp add: reset_def stop_def nvfbc_call_def active_handle_def world_failing_def
        fresh_world_def reply_failed_def Let_def)








subsection \<open>\<open>reinit\<close>, \<open>snapshot\<close> and the entry of \<open>capture\<close>\<close>



text \<open>What \<open>init\<close> leaves: the buffer pointer of the handle as it was, and on success a
  configuration without cursor and without direct capture.\<close>

lemma init_result:
  "init tosys fv name fr d w = Some (rc, d', w') \<Longrightarrow>
     pBuffer (handle d') = pBuffer (handle d)
     \<and> (rc = 0 \<longrightarrow> \<not> bWithCursor (capture_params d') \<and> \<not> bAllowDirectCapture (capture_params d'))"
proof -
  assume a: "init tosys fv name fr d w = Some (rc, d', w')"
  obtain ho w1 where m: "handle_make w = (ho, w1)" by (cases "handle_make w") auto
  show ?thesis
  proof (cases ho)
    case None
    then show ?thesis using a m by (auto simp: init_def)
  next
    case (Some h)
    obtain so w2 where s: "handle_status h w1 = (so, w2)" by (cases "handle_status h w1") auto
    show ?thesis
    proof (cases so)
      case None
      then show ?thesis using a m Some s by (auto simp: init_def split: prod.splits)
    next
      case sp: (Some sp)
      obtain mon w3 where sel: "select_monitor fv name sp w2 = (mon, w3)"
        by (cases "select_monitor fv name sp w2") auto
      show ?thesis using a m Some s sp sel
        by (auto simp: init_def zero_capture_params_def Let_def split: prod.splits if_splits)
    qed
  qed
qed


lemma wait_until_quiet:
  "wait_until nf now w = (now', w') \<Longrightarrow>
     same_answers w w' \<and> nsinks w' = nsinks w \<and> ngrabs w' = ngrabs w \<and> ncalls w' = ncalls w
     \<and> clock w \<le> clock w' \<and> nf \<le> now'
     \<and> (now < nf \<longrightarrow> now' = clock w') \<and> (nf \<le> now \<longrightarrow> now' = now \<and> w' = w)"
proof (induction nf now w rule: wait_until.induct)
  case (1 nf now w)
  show ?case
  proof (cases "nf > now")
    case False
    then show ?thesis using "1.prems" by (simp add: wait_until.simps[of nf now w])
  next
    case True
    define w1 where "w1 = sleep_for 1 w"
    obtain now1 w2 where n: "steady_now w1 = (now1, w2)" by (cases "steady_now w1") auto
    have rec: "wait_until nf now1 w2 = (now', w')"
      using "1.prems" True n by (simp add: wait_until.simps[of nf now w] w1_def)
    note ih = "1.IH"[OF True w1_def refl n[symmetric] rec]
    have step: "same_answers w w2" "nsinks w2 = nsinks w" "ngrabs w2 = ngrabs w"
       "ncalls w2 = ncalls w" "clock w \<le> clock w2" "now1 = clock w2"
      using n by (auto simp: w1_def sleep_for_def steady_now_def Let_def same_answers_def)
    show ?thesis using ih step True by (auto intro: same_answers_trans)
  qed
qed

lemma pace_quiet:
  assumes "pace nf dly w = (nf', w')"
  shows "same_answers w w' \<and> nsinks w' = nsinks w \<and> ngrabs w' = ngrabs w \<and> ncalls w' = ncalls w
     \<and> clock w \<le> clock w' \<and> nf' = clock w' + dly \<and> nf \<le> clock w'"
proof -
  obtain now w1 where n: "steady_now w = (now, w1)" by (cases "steady_now w") auto
  define w2 where "w2 = (if nf > now then sleep_for ((nf - now) sdiv 3 * 2) w1 else w1)"
  obtain now' w3 where wu: "wait_until nf now w2 = (now', w3)"
    by (cases "wait_until nf now w2") auto
  have res: "nf' = now' + dly" "w' = w3"
    using assms n wu by (simp_all add: pace_def w2_def Let_def)
  have step: "same_answers w w2" "nsinks w2 = nsinks w" "ngrabs w2 = ngrabs w"
       "ncalls w2 = ncalls w" "clock w \<le> clock w2" "now \<le> clock w2" "nf \<le> now \<longrightarrow> now = clock w2"
    using n by (auto simp: w2_def sleep_for_def steady_now_def Let_def same_answers_def)
  note q = wait_until_quiet[OF wu]
  show ?thesis using q step res by (auto intro: same_answers_trans)
qed

lemma capture_entry_fields:
  "cursor_visible (disp (capture_entry io cursor d w)) = (\<not> cursor (nsinks w))
   \<and> nsinks (wrld (capture_entry io cursor d w)) = nsinks w
   \<and> img (capture_entry io cursor d w) = io
   \<and> delay (disp (capture_entry io cursor d w)) = delay d
   \<and> same_answers w (wrld (capture_entry io cursor d w))
   \<and> ngrabs (wrld (capture_entry io cursor d w)) = ngrabs w
   \<and> handle (disp (capture_entry io cursor d w)) = handle d"
  by (simp add: capture_entry_def steady_now_def nvfbc_call_def Let_def same_answers_def)

lemma dispatch_failure:
  "st = capture_reinit \<or> st = capture_error \<Longrightarrow> dispatch cb st i s = (Some st, s)"
  by (auto simp: dispatch_def)

text \<open>
  C8. A \<open>snapshot\<close> whose cursor flag differs from the stored one calls \<open>reinit\<close> with
  it first: when the status of \<open>reinit\<close> is not \<^verbatim>\<open>ok\<close> it is the result, with the image
  untouched and no grab; otherwise the grab follows on the state \<open>reinit\<close> left. The
  entry of \<open>capture\<close> stores the opposite of \<^verbatim>\<open>*cursor\<close>, so the snapshot of the
  first round finds a mismatch and the round is \<open>reinit\<close>, then (if that was \<^verbatim>\<open>ok\<close>)
  the grab and the switch.
\<close>

theorem snapshot_reinit_on_mismatch:
  "(cursor \<noteq> cursor_visible d \<and> reinit tosys cursor d w = (st, d1, w1) \<longrightarrow>
      snapshot tosys i t cursor d w =
        (if st \<noteq> capture_ok then (st, i, d1, w1) else snapshot_grab tosys i t d1 w1))
   \<and> cursor_visible (disp (capture_entry (Some i0) cur d0 w0)) = (\<not> cur (nsinks w0))
   \<and> (pace (next_frame (capture_entry (Some i0) cur d0 w0))
            (delay (disp (capture_entry (Some i0) cur d0 w0)))
            (wrld (capture_entry (Some i0) cur d0 w0)) = (nf, wp) \<longrightarrow>
        cur (nsinks wp) \<noteq> cursor_visible (disp (capture_entry (Some i0) cur d0 w0))
      \<and> capture_iter tosys cb cur i0 (capture_entry (Some i0) cur d0 w0) =
          (case reinit tosys (cur (nsinks w0)) (disp (capture_entry (Some i0) cur d0 w0)) wp of
             (st, d1, w1) \<Rightarrow>
               if st \<noteq> capture_ok
               then (Some st, (capture_entry (Some i0) cur d0 w0)
                                \<lparr>img := Some i0, next_frame := nf, disp := d1, wrld := w1\<rparr>)
               else (case snapshot_grab tosys i0 150 d1 w1 of
                       (st', i1, d2, w2) \<Rightarrow>
                         dispatch cb st' i1
                           ((capture_entry (Some i0) cur d0 w0)
                              \<lparr>img := Some i1, next_frame := nf, disp := d2, wrld := w2\<rparr>))))"
proof -
  let ?s0 = "capture_entry (Some i0) cur d0 w0"
  have A: "cursor \<noteq> cursor_visible d \<and> reinit tosys cursor d w = (st, d1, w1) \<longrightarrow>
      snapshot tosys i t cursor d w =
        (if st \<noteq> capture_ok then (st, i, d1, w1) else snapshot_grab tosys i t d1 w1)"
    by (auto simp: snapshot_def)
  note e = capture_entry_fields[of "Some i0" cur d0 w0]
  have C: "cur (nsinks wp) \<noteq> cursor_visible (disp ?s0)
      \<and> capture_iter tosys cb cur i0 ?s0 =
          (case reinit tosys (cur (nsinks w0)) (disp ?s0) wp of
             (st, d1, w1) \<Rightarrow>
               if st \<noteq> capture_ok
               then (Some st, ?s0\<lparr>img := Some i0, next_frame := nf, disp := d1, wrld := w1\<rparr>)
               else (case snapshot_grab tosys i0 150 d1 w1 of
                       (st', i1, d2, w2) \<Rightarrow>
                         dispatch cb st' i1
                           (?s0\<lparr>img := Some i1, next_frame := nf, disp := d2, wrld := w2\<rparr>)))"
    if p: "pace (next_frame ?s0) (delay (disp ?s0)) (wrld ?s0) = (nf, wp)"
  proof -
    have ns: "nsinks wp = nsinks w0" using pace_quiet[OF p] e by simp
    have mism: "cur (nsinks wp) \<noteq> cursor_visible (disp ?s0)" using ns e by simp
    obtain st d1 w1 where r: "reinit tosys (cur (nsinks w0)) (disp ?s0) wp = (st, d1, w1)"
      by (cases "reinit tosys (cur (nsinks w0)) (disp ?s0) wp") auto
    have nt: "st \<noteq> capture_timeout" using reinit_quiet[OF r] by simp
    have "capture_iter tosys cb cur i0 ?s0 =
            (if st \<noteq> capture_ok
               then (Some st, ?s0\<lparr>img := Some i0, next_frame := nf, disp := d1, wrld := w1\<rparr>)
               else (case snapshot_grab tosys i0 150 d1 w1 of
                       (st', i1, d2, w2) \<Rightarrow>
                         dispatch cb st' i1
                           (?s0\<lparr>img := Some i1, next_frame := nf, disp := d2, wrld := w2\<rparr>)))"
    proof (cases "st = capture_ok")
      case True
      then show ?thesis using p ns mism r
        by (simp add: capture_iter_def snapshot_def split: prod.splits)
    next
      case False
      then have f: "st = capture_reinit \<or> st = capture_error" using nt by (cases st) auto
      show ?thesis using p ns mism r False dispatch_failure[OF f]
        by (simp add: capture_iter_def snapshot_def)
    qed
    then show ?thesis using mism r by simp
  qed
  show ?thesis using A e C by blast
qed

lemma snapshot_grab_result:
  "snapshot_grab tosys i t d w = (st, i', d', w') \<Longrightarrow>
     d' = d \<and> ngrabs w' = Suc (ngrabs w) \<and> same_answers w w' \<and> nsinks w' = nsinks w
     \<and> st \<noteq> capture_timeout
     \<and> (st = capture_ok \<longrightarrow>
          i' = (if tosys then i else i\<lparr>tex := Some (device_ptr (grab_replies w (ngrabs w)))\<rparr>)
                 \<lparr>data := pBuffer (handle d)\<rparr>)
     \<and> (st \<noteq> capture_ok \<longrightarrow> i' = i)"
  by (auto simp: snapshot_grab_def grab_frame_def tex_copy_def Let_def same_answers_def
           split: if_splits prod.splits)

lemma snapshot_quiet:
  assumes "snapshot tosys i t cursor d w = (st, i', d', w')"
  shows "same_answers w w' \<and> nsinks w' = nsinks w \<and> delay d' = delay d
     \<and> st \<noteq> capture_timeout \<and> ngrabs w \<le> ngrabs w'
     \<and> (\<not> tosys \<longrightarrow> pBuffer (handle d') = pBuffer (handle d))
     \<and> (st = capture_ok \<longrightarrow>
          i' = (if tosys then i else i\<lparr>tex := Some (device_ptr (grab_replies w (ngrabs w' - 1)))\<rparr>)
                 \<lparr>data := pBuffer (handle d')\<rparr>)
     \<and> (st \<noteq> capture_ok \<longrightarrow> i' = i)"
proof (cases "cursor \<noteq> cursor_visible d")
  case False
  then have g: "snapshot_grab tosys i t d w = (st, i', d', w')"
    using assms by (simp add: snapshot_def)
  show ?thesis using snapshot_grab_result[OF g] by auto
next
  case True
  obtain st1 d1 w1 where r: "reinit tosys cursor d w = (st1, d1, w1)"
    by (cases "reinit tosys cursor d w") auto
  note q = reinit_quiet[OF r]
  show ?thesis
  proof (cases "st1 = capture_ok")
    case False
    then show ?thesis using assms True r q by (auto simp: snapshot_def)
  next
    case ok: True
    then have g: "snapshot_grab tosys i t d1 w1 = (st, i', d', w')"
      using assms True r by (simp add: snapshot_def)
    note gq = snapshot_grab_result[OF g]
    have sa: "same_answers w w'" using q gq by (auto intro: same_answers_trans)
    have gr: "grab_replies w1 = grab_replies w" using q by (simp add: same_answers_def)
    show ?thesis using q gq sa gr by auto
  qed
qed

text \<open>
  C10. A \<open>snapshot\<close> that returns \<^verbatim>\<open>ok\<close> leaves the image as it was but for the
  texture (CUDA build: filled from the device pointer of the grab) and \<open>data\<close>, which
  is \<open>pBuffer\<close> of the handle. The CUDA build never writes \<open>pBuffer\<close>, so with
  \<open>pBuffer = NULL\<close> (what \<^verbatim>\<open>handle_t::make\<close> gives) \<open>data\<close> is null after a successful
  snapshot. With any other status the image is unchanged. (\<open>init\<close> leaves the
  \<open>pBuffer\<close> of the display's handle as it was.)
\<close>

theorem snapshot_data_pointer:
  "(snapshot tosys i t cursor d w = (st, i', d', w') \<longrightarrow>
      (st = capture_ok \<longrightarrow>
         data i' = pBuffer (handle d')
         \<and> i' = (if tosys then i
                 else i\<lparr>tex := Some (device_ptr (grab_replies w (ngrabs w' - 1)))\<rparr>)
                \<lparr>data := pBuffer (handle d')\<rparr>)
      \<and> (st = capture_ok \<and> \<not> tosys \<longrightarrow>
           pBuffer (handle d') = pBuffer (handle d) \<and> (pBuffer (handle d) = 0 \<longrightarrow> data i' = 0))
      \<and> (st \<noteq> capture_ok \<longrightarrow> i' = i))
   \<and> (handle_make w0 = (Some h, w0') \<longrightarrow> pBuffer h = 0)
   \<and> (init tosys from_view display_name framerate dI wI = Some (rc, dI', wI') \<longrightarrow>
        pBuffer (handle dI') = pBuffer (handle dI))"
proof -
  have I: "init tosys from_view display_name framerate dI wI = Some (rc, dI', wI') \<longrightarrow>
        pBuffer (handle dI') = pBuffer (handle dI)"
    using init_result by blast
  have A: "(st = capture_ok \<longrightarrow>
         data i' = pBuffer (handle d')
         \<and> i' = (if tosys then i
                 else i\<lparr>tex := Some (device_ptr (grab_replies w (ngrabs w' - 1)))\<rparr>)
                \<lparr>data := pBuffer (handle d')\<rparr>)
      \<and> (st = capture_ok \<and> \<not> tosys \<longrightarrow>
           pBuffer (handle d') = pBuffer (handle d) \<and> (pBuffer (handle d) = 0 \<longrightarrow> data i' = 0))
      \<and> (st \<noteq> capture_ok \<longrightarrow> i' = i)"
    if s: "snapshot tosys i t cursor d w = (st, i', d', w')"
  proof -
    note q = snapshot_quiet[OF s]
    have 1: "st = capture_ok \<longrightarrow> i' = (if tosys then i
                 else i\<lparr>tex := Some (device_ptr (grab_replies w (ngrabs w' - 1)))\<rparr>)
                \<lparr>data := pBuffer (handle d')\<rparr>" using q by blast
    have 2: "st = capture_ok \<longrightarrow> data i' = pBuffer (handle d')"
    proof
      assume "st = capture_ok"
      with 1 have "i' = (if tosys then i
                 else i\<lparr>tex := Some (device_ptr (grab_replies w (ngrabs w' - 1)))\<rparr>)
                \<lparr>data := pBuffer (handle d')\<rparr>" by blast
      then have "data i' = data ((if tosys then i
                 else i\<lparr>tex := Some (device_ptr (grab_replies w (ngrabs w' - 1)))\<rparr>)
                \<lparr>data := pBuffer (handle d')\<rparr>)" by simp
      then show "data i' = pBuffer (handle d')" by simp
    qed
    show ?thesis using q 1 2 by auto
  qed
  have B: "handle_make w0 = (Some h, w0') \<longrightarrow> pBuffer h = 0"
    by (auto simp: handle_make_def nvfbc_call_def Let_def split: if_splits)
  show ?thesis using A B I by blast
qed



theorem snapshot_data_pointer_witness:
  "fst (snapshot False image0 150 False display60 world_direct) = capture_ok
   \<and> pBuffer (handle display60) = 0
   \<and> data (fst (snd (snapshot False image0 150 False display60 world_direct))) = 0
   \<and> tex (fst (snd (snapshot False image0 150 False display60 world_direct))) = Some 8192
   \<and> fst (snapshot False image0 150 False display60 world_lost) = capture_reinit
   \<and> fst (snd (snapshot False image0 150 False display60 world_lost)) = image0
   \<and> fst (handle_make world_direct) \<noteq> None
   \<and> pBuffer (the (fst (handle_make world_direct))) = 0"
proof -
  have s: "snapshot False image0 150 False display60 world_direct =
             (fst (snapshot False image0 150 False display60 world_direct),
              fst (snd (snapshot False image0 150 False display60 world_direct)),
              fst (snd (snd (snapshot False image0 150 False display60 world_direct))),
              snd (snd (snd (snapshot False image0 150 False display60 world_direct))))" by simp
  have ok: "fst (snapshot False image0 150 False display60 world_direct) = capture_ok"
    by (simp add: snapshot_def snapshot_grab_def grab_frame_def tex_copy_def display60_def
          world_direct_def fresh_world_def grab_direct_def Let_def)
  have n: "ngrabs (snd (snd (snd (snapshot False image0 150 False display60 world_direct)))) = 1"
    by (simp add: snapshot_def snapshot_grab_def grab_frame_def tex_copy_def display60_def
          world_direct_def fresh_world_def grab_direct_def Let_def)
  have p: "pBuffer (handle display60) = 0" by (simp add: display60_def idle_handle_def)
  have g: "device_ptr (grab_replies world_direct 0) = 8192"
    by (simp add: world_direct_def fresh_world_def grab_direct_def)
  have m: "handle_make world_direct =
             (Some (the (fst (handle_make world_direct))), snd (handle_make world_direct))"
    by (simp add: handle_make_def nvfbc_call_def world_direct_def fresh_world_def reply_ok_def)
  note t = snapshot_data_pointer[of False image0 150 False display60 world_direct
      "fst (snapshot False image0 150 False display60 world_direct)"
      "fst (snd (snapshot False image0 150 False display60 world_direct))"
      "fst (snd (snd (snapshot False image0 150 False display60 world_direct)))"
      "snd (snd (snd (snapshot False image0 150 False display60 world_direct)))"
      world_direct "the (fst (handle_make world_direct))" "snd (handle_make world_direct)"]
  have t1: "data (fst (snd (snapshot False image0 150 False display60 world_direct))) = 0"
    using t s ok p by blast
  have t2: "fst (snd (snapshot False image0 150 False display60 world_direct)) =
              image0\<lparr>tex := Some (device_ptr (grab_replies world_direct
                 (ngrabs (snd (snd (snd (snapshot False image0 150 False display60 world_direct)))) - 1))),
                data := pBuffer (handle (fst (snd (snd (snapshot False image0 150 False display60 world_direct)))))\<rparr>"
    using t s ok by auto
  have t3: "tex (fst (snd (snapshot False image0 150 False display60 world_direct))) = Some 8192"
    by (subst t2) (simp add: n g)
  have s2: "snapshot False image0 150 False display60 world_lost =
             (fst (snapshot False image0 150 False display60 world_lost),
              fst (snd (snapshot False image0 150 False display60 world_lost)),
              fst (snd (snd (snapshot False image0 150 False display60 world_lost))),
              snd (snd (snd (snapshot False image0 150 False display60 world_lost))))" by simp
  have lost: "fst (snapshot False image0 150 False display60 world_lost) = capture_reinit"
    by (simp add: snapshot_def snapshot_grab_def grab_frame_def tex_copy_def display60_def
          world_lost_def fresh_world_def grab_must_recreate_def Let_def)
  have t4: "fst (snd (snapshot False image0 150 False display60 world_lost)) = image0"
    using snapshot_data_pointer[of False image0 150 False display60 world_lost
      "fst (snapshot False image0 150 False display60 world_lost)"
      "fst (snd (snapshot False image0 150 False display60 world_lost))"
      "fst (snd (snd (snapshot False image0 150 False display60 world_lost)))"
      "snd (snd (snd (snapshot False image0 150 False display60 world_lost)))"] s2 lost
    by simp
  have t5: "fst (handle_make world_direct) \<noteq> None"
    by (simp add: handle_make_def nvfbc_call_def world_direct_def fresh_world_def reply_ok_def)
  have t6: "pBuffer (the (fst (handle_make world_direct))) = 0" using t m by blast
  show ?thesis using ok p t1 t3 lost t4 t5 t6 by blast
qed

theorem snapshot_reinit_on_mismatch_witness:
  "True \<noteq> cursor_visible display60
   \<and> snapshot False image0 150 True display60 world_failing =
       (capture_error, image0, snd (reinit False True display60 world_failing))
   \<and> cursor_visible (disp (capture_entry (Some image0) cursor_off display60 world_direct))
   \<and> fst (capture_iter False (sink_frames 3) cursor_on image0
             (capture_entry (Some image0) cursor_on display60 world_failing)) = Some capture_error"
proof -
  have mism: "True \<noteq> cursor_visible display60" by (simp add: display60_def)
  have r: "reinit False True display60 world_failing =
             (capture_error, fst (snd (reinit False True display60 world_failing)),
              snd (snd (reinit False True display60 world_failing)))"
    by (simp add: reinit_def stop_def handle_capture_def nvfbc_call_def display60_def
          idle_handle_def world_failing_def fresh_world_def reply_failed_def Let_def)
  let ?s0 = "capture_entry (Some image0) cursor_on display60 world_failing"
  have p: "pace (next_frame ?s0) (delay (disp ?s0)) (wrld ?s0) =
             (fst (pace (next_frame ?s0) (delay (disp ?s0)) (wrld ?s0)),
              snd (pace (next_frame ?s0) (delay (disp ?s0)) (wrld ?s0)))" by simp
  note t = snapshot_reinit_on_mismatch[where cursor = True and d = display60 and tosys = False
      and w = world_failing and st = capture_error
      and ?d1.0 = "fst (snd (reinit False True display60 world_failing))"
      and ?w1.0 = "snd (snd (reinit False True display60 world_failing))"
      and i = image0 and t = 150 and ?i0.0 = image0 and cur = cursor_off
      and ?d0.0 = display60 and ?w0.0 = world_direct]
  have t1: "snapshot False image0 150 True display60 world_failing =
       (capture_error, image0, snd (reinit False True display60 world_failing))"
    using t mism r by simp
  have t2: "cursor_visible (disp (capture_entry (Some image0) cursor_off display60 world_direct))"
    using t by (simp add: cursor_off_def)
  note u = snapshot_reinit_on_mismatch[where tosys = False and ?i0.0 = image0 and cur = cursor_on
      and ?d0.0 = display60 and ?w0.0 = world_failing
      and nf = "fst (pace (next_frame ?s0) (delay (disp ?s0)) (wrld ?s0))"
      and wp = "snd (pace (next_frame ?s0) (delay (disp ?s0)) (wrld ?s0))"
      and cb = "sink_frames 3"]
  have calls: "\<forall>k. status (call_replies (snd (pace (next_frame ?s0) (delay (disp ?s0)) (wrld ?s0))) k) \<noteq> NVFBC_SUCCESS"
    using pace_quiet[OF p] capture_entry_fields[of "Some image0" cursor_on display60 world_failing]
    by (simp add: same_answers_def world_failing_def fresh_world_def reply_failed_def)
  have idle: "\<not> SESSION_CAPTURE (handle (disp ?s0))"
    using capture_entry_fields[of "Some image0" cursor_on display60 world_failing]
    by (simp add: display60_def idle_handle_def)
  have r2: "fst (reinit False (cursor_on (nsinks world_failing)) (disp ?s0)
                  (snd (pace (next_frame ?s0) (delay (disp ?s0)) (wrld ?s0)))) = capture_error"
    using calls idle
    by (simp add: reinit_def stop_def handle_capture_def nvfbc_call_def cursor_on_def Let_def
             split: prod.splits)
  obtain d1 w1 where rr: "reinit False (cursor_on (nsinks world_failing)) (disp ?s0)
                  (snd (pace (next_frame ?s0) (delay (disp ?s0)) (wrld ?s0))) = (capture_error, d1, w1)"
    using r2 by (cases "reinit False (cursor_on (nsinks world_failing)) (disp ?s0)
                  (snd (pace (next_frame ?s0) (delay (disp ?s0)) (wrld ?s0)))") auto
  have "capture_iter False (sink_frames 3) cursor_on image0 ?s0 =
          (Some capture_error, ?s0\<lparr>img := Some image0,
              next_frame := fst (pace (next_frame ?s0) (delay (disp ?s0)) (wrld ?s0)),
              disp := d1, wrld := w1\<rparr>)"
    using u p rr by simp
  then have t3: "fst (capture_iter False (sink_frames 3) cursor_on image0 ?s0) = Some capture_error"
    by simp
  show ?thesis using mism t1 t2 t3 by blast
qed


subsection \<open>The frame pump\<close>

lemma driver_never_fails_same:
  "same_answers w w' \<Longrightarrow> driver_never_fails w \<Longrightarrow> driver_never_fails w'"
  by (simp add: same_answers_def driver_never_fails_def)

lemma capture_iter_quiet:
  assumes "capture_iter tosys cb cur i s = (r, s')"
  shows "same_answers (wrld s) (wrld s') \<and> delay (disp s') = delay (disp s)
     \<and> next_frame s' = fst (pace (next_frame s) (delay (disp s)) (wrld s))
     \<and> next_frame s + delay (disp s) \<le> next_frame s'
     \<and> r \<noteq> Some capture_timeout \<and> r \<noteq> Some capture_ok
     \<and> (r = None \<longrightarrow> nsinks (wrld s') = Suc (nsinks (wrld s)))
     \<and> (r \<noteq> None \<longrightarrow> nsinks (wrld s') = nsinks (wrld s))"
proof -
  obtain nf wp where p: "pace (next_frame s) (delay (disp s)) (wrld s) = (nf, wp)"
    by (cases "pace (next_frame s) (delay (disp s)) (wrld s)") auto
  obtain st i1 d1 w1 where sn: "snapshot tosys i 150 (cur (nsinks wp)) (disp s) wp = (st, i1, d1, w1)"
    by (cases "snapshot tosys i 150 (cur (nsinks wp)) (disp s) wp") auto
  note pq = pace_quiet[OF p]
  note sq = snapshot_quiet[OF sn]
  have sa: "same_answers (wrld s) w1" using pq sq by (auto intro: same_answers_trans)
  have d: "dispatch cb st i1 (s\<lparr>img := Some i1, next_frame := nf, disp := d1, wrld := w1\<rparr>) = (r, s')"
    using assms p sn by (simp add: capture_iter_def)
  have nt: "st \<noteq> capture_timeout" using sq by simp
  show ?thesis
  proof (cases st)
    case capture_ok
    then show ?thesis using d p pq sq sa
      by (auto simp: dispatch_def call_snapshot_cb_def same_answers_def)
  next
    case capture_reinit
    then show ?thesis using d p pq sq sa by (auto simp: dispatch_def)
  next
    case capture_timeout
    then show ?thesis using nt by simp
  next
    case capture_error
    then show ?thesis using d p pq sq sa by (auto simp: dispatch_def)
  qed
qed

lemma rounds_deadline:
  "rounds n tosys cb cur s = Some s' \<Longrightarrow>
     next_frame s + int n * delay (disp s) \<le> next_frame s' \<and> delay (disp s') = delay (disp s)"
proof (induction n arbitrary: s)
  case 0
  then show ?case by simp
next
  case (Suc n)
  from Suc.prems obtain i where i: "img s = Some i" by (cases "img s") auto
  obtain r s1 where c: "capture_iter tosys cb cur i s = (r, s1)"
    by (cases "capture_iter tosys cb cur i s") auto
  have r: "r = None" and rec: "rounds n tosys cb cur s1 = Some s'"
    using Suc.prems i c by (cases r; simp)+
  note q = capture_iter_quiet[OF c]
  note ih = Suc.IH[OF rec]
  have "next_frame s + int (Suc n) * delay (disp s)
          = (next_frame s + delay (disp s)) + int n * delay (disp s)"
    by (simp add: algebra_simps)
  also have "\<dots> \<le> next_frame s1 + int n * delay (disp s1)" using q by simp
  also have "\<dots> \<le> next_frame s'" using ih by simp
  finally show ?case using ih q by simp
qed

lemma rounds_loop:
  "rounds n tosys cb cur s = Some s' \<Longrightarrow>
     capture_loop tosys cb cur s = capture_loop tosys cb cur s'"
proof (induction n arbitrary: s)
  case 0
  then show ?case by simp
next
  case (Suc n)
  from Suc.prems obtain i where i: "img s = Some i" by (cases "img s") auto
  obtain r s1 where c: "capture_iter tosys cb cur i s = (r, s1)"
    by (cases "capture_iter tosys cb cur i s") auto
  have r: "r = None" and rec: "rounds n tosys cb cur s1 = Some s'"
    using Suc.prems i c by (cases r; simp)+
  have "capture_loop tosys cb cur s = capture_loop tosys cb cur s1"
    using i c r by (subst capture_loop.simps) simp
  then show ?case using Suc.IH[OF rec] by simp
qed

lemma capture_loop_no_timeout:
  assumes "capture_loop tosys cb cur s = Some y"
  shows "fst y \<noteq> capture_timeout"
proof (rule capture_loop.raw_induct[where P = "\<lambda>tosys cb cur s y. fst y \<noteq> capture_timeout",
         OF _ assms], goal_cases)
  case (1 loop tosys cb cur s y)
  show ?case
  proof (cases "img s")
    case None
    then show ?thesis using 1(2) by auto
  next
    case (Some i)
    obtain r s1 where c: "capture_iter tosys cb cur i s = (r, s1)"
      by (cases "capture_iter tosys cb cur i s") auto
    note q = capture_iter_quiet[OF c]
    show ?thesis
    proof (cases r)
      case None
      then have "loop tosys cb cur s1 = Some y" using 1(2) Some c by simp
      then show ?thesis by (rule 1(1))
    next
      case (Some st)
      then show ?thesis using 1(2) \<open>img s = Some i\<close> c q by auto
    qed
  qed
qed

lemma capture_exit_quiet:
  "capture_exit d w = (d', w') \<Longrightarrow>
     ngrabs w' = ngrabs w \<and> nsinks w' = nsinks w
     \<and> trace w' = trace w
          @ (if SESSION_HANDLE (handle d)
             then (if SESSION_CAPTURE (handle d) then [NvFBCDestroyCaptureSession] else [])
                  @ [NvFBCDestroyHandle]
             else [])
          @ [NvFBCReleaseContext]"
  by (auto simp: capture_exit_def reset_def stop_def nvfbc_call_def Let_def
           split: if_splits prod.splits)


lemma probe_never_fails:
  "\<forall>k. grab_status (grab_replies w k) = NVFBC_SUCCESS \<Longrightarrow> \<exists>b w'. probe n w = (Inr b, w')"
proof (induction n arbitrary: w)
  case 0
  show ?case by auto
next
  case (Suc n)
  have "\<forall>k. grab_status (grab_replies (snd (grab_frame 0 w)) k) = NVFBC_SUCCESS"
    using Suc.prems by (simp add: grab_frame_def)
  from Suc.IH[OF this] show ?case using Suc.prems
    by (auto simp: grab_frame_def)
qed

lemma reinit_never_fails:
  assumes "driver_never_fails w"
  shows "\<exists>d' w'. reinit tosys cursor d w = (capture_ok, d', w')"
proof (cases cursor)
  case True
  have calls: "\<forall>k. status (call_replies w k) = NVFBC_SUCCESS"
    using assms by (simp add: driver_never_fails_def)
  have c: "cursor = True" using True by simp
  show ?thesis unfolding c using reinit_cursor_ok[OF calls, of tosys d] by blast
next
  case False
  have calls: "\<forall>k. status (call_replies w k) = NVFBC_SUCCESS"
    using assms by (simp add: driver_never_fails_def)
  obtain h1 w1 where s: "stop (handle d) w = (0, h1, w1)" using stop_ok[OF calls] by blast
  have n1: "driver_never_fails w1" using stop_quiet[OF s] assms driver_never_fails_same by blast
  then have c1: "\<forall>k. status (call_replies w1 k) = NVFBC_SUCCESS"
    by (simp add: driver_never_fails_def)
  define cp where "cp = (capture_params d)\<lparr>bPushModel := True, bWithCursor := False,
                                               bAllowDirectCapture := True\<rparr>"
  obtain h2 w2 where c: "handle_capture tosys cp h1 w1 = (0, h2, w2)"
    using handle_capture_ok[OF c1] by blast
  have n2: "driver_never_fails w2"
    using handle_capture_quiet[OF c] n1 driver_never_fails_same by blast
  then have "\<forall>k. grab_status (grab_replies w2 k) = NVFBC_SUCCESS"
    by (simp add: driver_never_fails_def)
  from probe_never_fails[OF this, of 3] obtain b w3 where p: "probe 3 w2 = (Inr b, w3)" by blast
  have n3: "driver_never_fails w3" using probe_quiet[OF p] n2 driver_never_fails_same by blast
  then have c3: "\<forall>k. status (call_replies w3 k) = NVFBC_SUCCESS"
    by (simp add: driver_never_fails_def)
  show ?thesis
  proof (cases b)
    case True
    then show ?thesis using False s c p by (simp add: reinit_def cp_def Let_def del: probe.simps)
  next
    case nd: False
    obtain h3 w4 where s2: "stop h2 w3 = (0, h3, w4)" using stop_ok[OF c3] by blast
    have n4: "driver_never_fails w4" using stop_quiet[OF s2] n3 driver_never_fails_same by blast
    then have c4: "\<forall>k. status (call_replies w4 k) = NVFBC_SUCCESS"
      by (simp add: driver_never_fails_def)
    define cp' where "cp' = cp\<lparr>bPushModel := False, bWithCursor := False,
                                     bAllowDirectCapture := False\<rparr>"
    obtain h4 w5 where c2: "handle_capture tosys cp' h3 w4 = (0, h4, w5)"
      using handle_capture_ok[OF c4] by blast
    show ?thesis using False s c p nd s2 c2
      by (simp add: reinit_def cp_def cp'_def Let_def del: probe.simps)
  qed
qed

lemma snapshot_grab_never_fails:
  "driver_never_fails w \<Longrightarrow> \<exists>i' d' w'. snapshot_grab tosys i t d w = (capture_ok, i', d', w')"
  by (auto simp: snapshot_grab_def grab_frame_def tex_copy_def driver_never_fails_def Let_def)

lemma snapshot_never_fails:
  assumes "driver_never_fails w"
  shows "\<exists>i' d' w'. snapshot tosys i t cursor d w = (capture_ok, i', d', w')"
proof (cases "cursor \<noteq> cursor_visible d")
  case False
  then show ?thesis using snapshot_grab_never_fails[OF assms, of tosys i t d]
    by (auto simp: snapshot_def)
next
  case True
  from reinit_never_fails[OF assms, of tosys cursor d] obtain d1 w1 where
    r: "reinit tosys cursor d w = (capture_ok, d1, w1)" by blast
  have "driver_never_fails w1" using reinit_quiet[OF r] assms driver_never_fails_same by blast
  from snapshot_grab_never_fails[OF this, of tosys i t d1] show ?thesis using True r
    by (auto simp: snapshot_def)
qed

lemma never_fails_round_snapshot:
  assumes "driver_never_fails (wrld s)"
  shows "fst (round_snapshot tosys cur i s) = capture_ok"
proof -
  obtain nf wp where p: "pace (next_frame s) (delay (disp s)) (wrld s) = (nf, wp)"
    by (cases "pace (next_frame s) (delay (disp s)) (wrld s)") auto
  have "driver_never_fails wp" using pace_quiet[OF p] assms driver_never_fails_same by blast
  from snapshot_never_fails[OF this, of tosys i 150 "cur (nsinks wp)" "disp s"]
  show ?thesis using p by (auto simp: round_snapshot_def)
qed

text \<open>A round is its snapshot followed by the switch.\<close>

lemma capture_iter_round_snapshot:
  "capture_iter tosys cb cur i s =
     (case round_snapshot tosys cur i s of
        (st, i1, d1, w2) \<Rightarrow>
          dispatch cb st i1
            (s\<lparr>img := Some i1,
               next_frame := fst (pace (next_frame s) (delay (disp s)) (wrld s)),
               disp := d1, wrld := w2\<rparr>))"
  by (simp add: capture_iter_def round_snapshot_def split: prod.splits)




text \<open>The definitions a concrete run of the pump unfolds.\<close>

lemmas run_defs =
  capture_entry_def steady_now_def nvfbc_call_def pace_def wait_until.simps sleep_for_def
  snapshot_def reinit_def stop_def handle_capture_def snapshot_grab_def grab_frame_def
  tex_copy_def capture_iter_def dispatch_def call_snapshot_cb_def Let_def
  world_jitter_def world_lost_def fresh_world_def reply_ok_def grab_direct_def
  grab_must_recreate_def display60_def idle_handle_def image0_def cursor_on_def
  sink_frames_def zero_capture_params_def signed_divide_int_def pump_jitter_def pump_lost_def

lemma jitter_start:
  "next_frame pump_jitter = 6000000
   \<and> delay (disp pump_jitter) = 16666666"
  by (simp add: run_defs)

lemma jitter_round1:
  "map_option next_frame
     (rounds 1 False (sink_frames 3) cursor_on pump_jitter) = Some 28666666"
  by (simp add: run_defs)

lemma jitter_round2:
  "map_option next_frame
     (rounds 2 False (sink_frames 3) cursor_on pump_jitter) = Some 47777777"
  by (simp add: numeral_2_eq_2 run_defs)

lemma jitter_round3:
  "map_option next_frame
     (rounds 3 False (sink_frames 3) cursor_on pump_jitter) = Some 66888888"
  by (simp add: numeral_3_eq_3 run_defs)






lemma flaky_not_never_fails: "\<not> driver_never_fails world_flaky"
  by (auto simp: driver_never_fails_def world_flaky_def fresh_world_def reply_failed_def)


text \<open>
  C1, as the code has it. A round of the loop sets the deadline to \<open>now + delay\<close>, where
  \<open>now\<close> is the reading of the clock that ended the wait and is not before the old
  deadline. So after \<open>n\<close> rounds the deadline is at least the first one plus \<open>n\<close>
  frame intervals; how late each wake-up was adds up in it.
\<close>

theorem deadline_from_wakeup:
  "(capture_iter tosys cb cur i s = (r, s') \<longrightarrow>
      (\<exists>wp. pace (next_frame s) (delay (disp s)) (wrld s) = (next_frame s', wp)
          \<and> next_frame s' = clock wp + delay (disp s) \<and> next_frame s \<le> clock wp))
   \<and> (rounds n tosys cb cur s = Some s'' \<longrightarrow>
        next_frame s + int n * delay (disp s) \<le> next_frame s'')"
proof -
  have A: "\<exists>wp. pace (next_frame s) (delay (disp s)) (wrld s) = (next_frame s', wp)
          \<and> next_frame s' = clock wp + delay (disp s) \<and> next_frame s \<le> clock wp"
    if c: "capture_iter tosys cb cur i s = (r, s')"
  proof -
    obtain nf wp where p: "pace (next_frame s) (delay (disp s)) (wrld s) = (nf, wp)"
      by (cases "pace (next_frame s) (delay (disp s)) (wrld s)") auto
    have "next_frame s' = nf" using capture_iter_quiet[OF c] p by simp
    then show ?thesis using p pace_quiet[OF p] by auto
  qed
  show ?thesis using A rounds_deadline by blast
qed

theorem deadline_from_wakeup_witness:
  "rounds 2 False (sink_frames 3) cursor_on pump_jitter \<noteq> None
   \<and> 6000000 + 2 * 16666666
       \<le> next_frame (the (rounds 2 False (sink_frames 3) cursor_on pump_jitter))"
proof -
  let ?s0 = "pump_jitter"
  have ne: "rounds 2 False (sink_frames 3) cursor_on ?s0 \<noteq> None"
    using jitter_round2 by auto
  then have r: "rounds 2 False (sink_frames 3) cursor_on ?s0 =
                  Some (the (rounds 2 False (sink_frames 3) cursor_on ?s0))" by simp
  have c: "capture_iter False (sink_frames 3) cursor_on image0 ?s0 =
             (fst (capture_iter False (sink_frames 3) cursor_on image0 ?s0),
              snd (capture_iter False (sink_frames 3) cursor_on image0 ?s0))" by simp
  note t = deadline_from_wakeup[where tosys = False and cb = "sink_frames 3" and cur = cursor_on
      and i = image0 and s = ?s0 and n = 2
      and r = "fst (capture_iter False (sink_frames 3) cursor_on image0 ?s0)"
      and s' = "snd (capture_iter False (sink_frames 3) cursor_on image0 ?s0)"
      and s'' = "the (rounds 2 False (sink_frames 3) cursor_on ?s0)"]
  have "next_frame ?s0 + int 2 * delay (disp ?s0)
          \<le> next_frame (the (rounds 2 False (sink_frames 3) cursor_on ?s0))"
    using t r c by blast
  then show ?thesis using ne jitter_start by simp
qed

text \<open>
  C1 as stated fails. At 60 frames a second, where every reading of the clock comes 6 ms
  after the last event, the deadline after two rounds is 47.78 ms instead of
  \<open>6 + 2 * 16.67 = 39.33\<close> ms, and after three rounds 66.89 ms instead of 56.00 ms:
  the distance grows with every round.
\<close>

theorem deadline_drifts:
  "map_option next_frame
     (rounds 2 False (sink_frames 3) cursor_on pump_jitter) = Some 47777777
   \<and> map_option next_frame
     (rounds 3 False (sink_frames 3) cursor_on pump_jitter) = Some 66888888
   \<and> next_frame pump_jitter
       + 2 * delay (disp pump_jitter) = 39333332
   \<and> next_frame pump_jitter
       + 3 * delay (disp pump_jitter) = 55999998"
  using jitter_round2 jitter_round3 jitter_start by simp

text \<open>
  C7. A grab that answers \<^verbatim>\<open>NVFBC_ERR_MUST_RECREATE\<close> makes \<open>snapshot\<close> return
  \<^verbatim>\<open>reinit\<close>, with nothing after the grab. When, after any number of rounds, the
  \<open>snapshot\<close> of a round returns \<^verbatim>\<open>reinit\<close> or \<^verbatim>\<open>error\<close>, \<open>capture\<close> returns that
  status: what follows the snapshot is only the exit of \<open>capture\<close> (the handle is
  reset and the context released), with no grab, no callback and no new session. The
  switch answers \<^verbatim>\<open>timeout\<close> with a sleep of 1 ms and goes on with the loop;
  \<open>snapshot\<close> never returns \<^verbatim>\<open>timeout\<close>, and neither does \<open>capture\<close>.
\<close>

theorem capture_returns_on_failure:
  "(cursor = cursor_visible d
      \<and> grab_status (grab_replies w (ngrabs w)) = NVFBC_ERR_MUST_RECREATE \<longrightarrow>
       snapshot tosys i t cursor d w =
         (capture_reinit, i, d, snd (grab_frame (nat (t mod 2 ^ 32)) w)))
   \<and> fst (snapshot tosys i t cursor d w) \<noteq> capture_timeout
   \<and> (rounds n tosys cb cur (capture_entry io cur d0 w0) = Some s \<and> img s = Some i1
        \<and> pace (next_frame s) (delay (disp s)) (wrld s) = (nf, wp)
        \<and> snapshot tosys i1 150 (cur (nsinks wp)) (disp s) wp = (st, i2, d2, w2)
        \<and> (st = capture_reinit \<or> st = capture_error) \<longrightarrow>
          capture tosys cb io cur d0 w0 = Some (st, capture_exit d2 w2)
        \<and> ngrabs (snd (capture_exit d2 w2)) = ngrabs w2
        \<and> nsinks (snd (capture_exit d2 w2)) = nsinks w2
        \<and> trace (snd (capture_exit d2 w2)) = trace w2
             @ (if SESSION_HANDLE (handle d2)
                then (if SESSION_CAPTURE (handle d2) then [NvFBCDestroyCaptureSession] else [])
                     @ [NvFBCDestroyHandle]
                else [])
             @ [NvFBCReleaseContext])
   \<and> dispatch cb capture_timeout i s1 = (None, s1\<lparr>wrld := sleep_for 1000000 (wrld s1)\<rparr>)
   \<and> (capture tosys cb io cur d0 w0 = Some (r, d', w') \<longrightarrow> r \<noteq> capture_timeout)"
proof -
  have A: "cursor = cursor_visible d
      \<and> grab_status (grab_replies w (ngrabs w)) = NVFBC_ERR_MUST_RECREATE \<longrightarrow>
       snapshot tosys i t cursor d w =
         (capture_reinit, i, d, snd (grab_frame (nat (t mod 2 ^ 32)) w))"
    by (simp add: snapshot_def snapshot_grab_def grab_frame_def)
  obtain st0 i0 d0' w0' where s0: "snapshot tosys i t cursor d w = (st0, i0, d0', w0')"
    by (cases "snapshot tosys i t cursor d w") auto
  have B: "fst (snapshot tosys i t cursor d w) \<noteq> capture_timeout"
    using snapshot_quiet[OF s0] s0 by simp
  have C: "capture tosys cb io cur d0 w0 = Some (st, capture_exit d2 w2)
        \<and> ngrabs (snd (capture_exit d2 w2)) = ngrabs w2
        \<and> nsinks (snd (capture_exit d2 w2)) = nsinks w2
        \<and> trace (snd (capture_exit d2 w2)) = trace w2
             @ (if SESSION_HANDLE (handle d2)
                then (if SESSION_CAPTURE (handle d2) then [NvFBCDestroyCaptureSession] else [])
                     @ [NvFBCDestroyHandle]
                else [])
             @ [NvFBCReleaseContext]"
    if rn: "rounds n tosys cb cur (capture_entry io cur d0 w0) = Some s" and im: "img s = Some i1"
      and p: "pace (next_frame s) (delay (disp s)) (wrld s) = (nf, wp)"
      and sn: "snapshot tosys i1 150 (cur (nsinks wp)) (disp s) wp = (st, i2, d2, w2)"
      and f: "st = capture_reinit \<or> st = capture_error"
  proof -
    let ?s2 = "s\<lparr>img := Some i2, next_frame := nf, disp := d2, wrld := w2\<rparr>"
    have it: "capture_iter tosys cb cur i1 s = (Some st, ?s2)"
      using p sn dispatch_failure[OF f] by (simp add: capture_iter_def)
    have "capture_loop tosys cb cur s = Some (st, ?s2)"
      using im it by (subst capture_loop.simps) simp
    then have l: "capture_loop tosys cb cur (capture_entry io cur d0 w0) = Some (st, ?s2)"
      using rounds_loop[OF rn] by simp
    obtain d3 w3 where x: "capture_exit d2 w2 = (d3, w3)" by (cases "capture_exit d2 w2") auto
    have "capture tosys cb io cur d0 w0 = Some (st, capture_exit d2 w2)"
      using l x by (simp add: capture_def)
    then show ?thesis using capture_exit_quiet[OF x] x by simp
  qed
  have D: "dispatch cb capture_timeout i s1 = (None, s1\<lparr>wrld := sleep_for 1000000 (wrld s1)\<rparr>)"
    by (simp add: dispatch_def)
  have E: "r \<noteq> capture_timeout" if c: "capture tosys cb io cur d0 w0 = Some (r, d', w')"
  proof -
    from c obtain s' where "capture_loop tosys cb cur (capture_entry io cur d0 w0) = Some (r, s')"
      by (auto simp: capture_def split: option.splits prod.splits)
    from capture_loop_no_timeout[OF this] show ?thesis by simp
  qed
  show ?thesis using A B C D E by blast
qed

theorem capture_returns_on_failure_witness:
  "capture False (sink_frames 3) (Some image0) cursor_on display60 world_lost \<noteq> None
   \<and> fst (the (capture False (sink_frames 3) (Some image0) cursor_on display60 world_lost))
        = capture_reinit
   \<and> ngrabs (snd (snd (the (capture False (sink_frames 3) (Some image0) cursor_on display60
                                world_lost)))) = 1
   \<and> nsinks (snd (snd (the (capture False (sink_frames 3) (Some image0) cursor_on display60
                                world_lost)))) = 0"
proof -
  let ?p = "pace (next_frame pump_lost) (delay (disp pump_lost)) (wrld pump_lost)"
  let ?sn = "snapshot False image0 150 (cursor_on (nsinks (snd ?p))) (disp pump_lost) (snd ?p)"
  have rn: "rounds 0 False (sink_frames 3) cursor_on
              (capture_entry (Some image0) cursor_on display60 world_lost) = Some pump_lost"
    by (simp add: pump_lost_def)
  have im: "img pump_lost = Some image0"
    using capture_entry_fields[of "Some image0" cursor_on display60 world_lost]
    by (simp add: pump_lost_def)
  have p: "?p = (fst ?p, snd ?p)" by simp
  have st: "fst ?sn = capture_reinit" by (simp add: run_defs)
  have sn: "?sn = (capture_reinit, fst (snd ?sn), fst (snd (snd ?sn)), snd (snd (snd ?sn)))"
    using st by (metis prod.collapse)
  have g: "ngrabs (snd (snd (snd ?sn))) = 1" "nsinks (snd (snd (snd ?sn))) = 0"
    by (simp_all add: run_defs)
  note t = capture_returns_on_failure[where tosys = False and cb = "sink_frames 3"
      and cur = cursor_on and io = "Some image0" and ?d0.0 = display60 and ?w0.0 = world_lost
      and n = 0 and s = pump_lost and ?i1.0 = image0 and nf = "fst ?p" and wp = "snd ?p"
      and st = capture_reinit and ?i2.0 = "fst (snd ?sn)" and ?d2.0 = "fst (snd (snd ?sn))"
      and ?w2.0 = "snd (snd (snd ?sn))"]
  have c: "capture False (sink_frames 3) (Some image0) cursor_on display60 world_lost =
             Some (capture_reinit, capture_exit (fst (snd (snd ?sn))) (snd (snd (snd ?sn))))"
    using t rn im p sn by blast
  have n: "ngrabs (snd (capture_exit (fst (snd (snd ?sn))) (snd (snd (snd ?sn)))))
             = ngrabs (snd (snd (snd ?sn)))"
          "nsinks (snd (capture_exit (fst (snd (snd ?sn))) (snd (snd (snd ?sn)))))
             = nsinks (snd (snd (snd ?sn)))"
    using t rn im p sn by blast+
  show ?thesis using c n g by simp
qed


subsection \<open>\<open>init\<close>\<close>

lemma reset_warnings:
  "reset h w = (rc, h', w') \<Longrightarrow> warnings w' = warnings w"
  by (auto simp: reset_def stop_def nvfbc_call_def Let_def split: if_splits prod.splits)

lemma init_past_status:
  assumes c1: "status (call_replies w (ncalls w)) = NVFBC_SUCCESS"
    and c2: "status (call_replies w (Suc (ncalls w))) = NVFBC_SUCCESS"
  shows "\<exists>h w2. handle_make w = (Some h, snd (nvfbc_call NvFBCCreateHandle w))
           \<and> handle_status h (snd (nvfbc_call NvFBCCreateHandle w))
                = (Some (out_status (call_replies w (Suc (ncalls w)))), w2)
           \<and> warnings w2 = warnings w"
  using c1 c2 by (simp add: handle_make_def handle_status_def nvfbc_call_def)

lemma to_int_small: "u < 2 ^ 31 \<Longrightarrow> to_int u = int u"
proof -
  assume a: "u < 2 ^ 31"
  then have "u < 2 ^ 32" by (simp add: order_less_trans[where y = "2 ^ 31"])
  then have m: "u mod 2 ^ 32 = u" by simp
  have "int u < 2 ^ 31" using a by (metis of_nat_less_iff of_nat_numeral of_nat_power)
  then show ?thesis by (simp add: to_int_def m)
qed

lemma to_int_wraps: "to_int 4294967295 = - 1"
  by (simp add: to_int_def)

text \<open>
  C5. Let the two driver calls of \<open>init\<close> succeed, the frame rate be non-zero and the
  display name non-empty, and let \<open>n\<close> be the number \<^verbatim>\<open>util::from_view\<close> reads from the
  name. When XRandR is not available, or \<open>n\<close> is negative or not below the number of
  outputs, \<open>init\<close> logs one warning, tracks the whole screen with the size of the
  screen as width and height (the offsets are not touched) and returns 0. When XRandR
  is available and \<open>n\<close> is an index of an output, \<open>init\<close> tracks that output, takes
  width, height and offsets from its box, logs nothing and returns 0. The driver's
  \<^verbatim>\<open>uint32_t\<close> members go into \<^verbatim>\<open>int\<close> members: what is stored is the member itself as
  long as it is below \<open>2 ^ 31\<close>.
\<close>

theorem init_output_selection:
  assumes c1: "status (call_replies w (ncalls w)) = NVFBC_SUCCESS"
    and c2: "status (call_replies w (Suc (ncalls w))) = NVFBC_SUCCESS"
    and sp: "sp = out_status (call_replies w (Suc (ncalls w)))"
    and n: "n = from_view display_name"
    and fr: "framerate \<noteq> 0" and nm: "display_name \<noteq> []"
  shows
    "(\<not> bXRandRAvailable sp \<or> n < 0 \<or> int (dwOutputNum sp) \<le> n \<longrightarrow>
        (\<exists>d' w'. init tosys from_view display_name framerate d w = Some (0, d', w')
           \<and> eTrackingType (capture_params d') = NVFBC_TRACKING_SCREEN
           \<and> width d' = to_int (size_w (screenSize sp))
           \<and> height d' = to_int (size_h (screenSize sp))
           \<and> (size_w (screenSize sp) < 2 ^ 31 \<and> size_h (screenSize sp) < 2 ^ 31 \<longrightarrow>
                width d' = int (size_w (screenSize sp))
                \<and> height d' = int (size_h (screenSize sp)))
           \<and> offset_x d' = offset_x d \<and> offset_y d' = offset_y d
           \<and> warnings w' = warnings w @
                [if bXRandRAvailable sp
                 then Warn_monitor_out_of_range n ((int (dwOutputNum sp) - 1) mod 2 ^ 32)
                 else Warn_xrandr_unavailable]))
   \<and> (bXRandRAvailable sp \<and> 0 \<le> n \<and> n < int (dwOutputNum sp)
        \<and> nat n < length (outputs sp) \<longrightarrow>
        (\<exists>d' w'. init tosys from_view display_name framerate d w = Some (0, d', w')
           \<and> eTrackingType (capture_params d') = NVFBC_TRACKING_OUTPUT
           \<and> dwOutputId (capture_params d') = dwId (outputs sp ! nat n)
           \<and> width d' = to_int (box_w (trackedBox (outputs sp ! nat n)))
           \<and> height d' = to_int (box_h (trackedBox (outputs sp ! nat n)))
           \<and> offset_x d' = to_int (box_x (trackedBox (outputs sp ! nat n)))
           \<and> offset_y d' = to_int (box_y (trackedBox (outputs sp ! nat n)))
           \<and> (box_w (trackedBox (outputs sp ! nat n)) < 2 ^ 31
                \<and> box_h (trackedBox (outputs sp ! nat n)) < 2 ^ 31
                \<and> box_x (trackedBox (outputs sp ! nat n)) < 2 ^ 31
                \<and> box_y (trackedBox (outputs sp ! nat n)) < 2 ^ 31 \<longrightarrow>
                width d' = int (box_w (trackedBox (outputs sp ! nat n)))
                \<and> height d' = int (box_h (trackedBox (outputs sp ! nat n)))
                \<and> offset_x d' = int (box_x (trackedBox (outputs sp ! nat n)))
                \<and> offset_y d' = int (box_y (trackedBox (outputs sp ! nat n))))
           \<and> warnings w' = warnings w))"
proof -
  from init_past_status[OF c1 c2] obtain h w2 where
    m: "handle_make w = (Some h, snd (nvfbc_call NvFBCCreateHandle w))"
    and s: "handle_status h (snd (nvfbc_call NvFBCCreateHandle w)) = (Some sp, w2)"
    and ww: "warnings w2 = warnings w" using sp by blast
  define old where "old = handle d"
  have A: "\<exists>d' w'. init tosys from_view display_name framerate d w = Some (0, d', w')
           \<and> eTrackingType (capture_params d') = NVFBC_TRACKING_SCREEN
           \<and> width d' = to_int (size_w (screenSize sp))
           \<and> height d' = to_int (size_h (screenSize sp))
           \<and> offset_x d' = offset_x d \<and> offset_y d' = offset_y d
           \<and> warnings w' = warnings w @
                [if bXRandRAvailable sp
                 then Warn_monitor_out_of_range n ((int (dwOutputNum sp) - 1) mod 2 ^ 32)
                 else Warn_xrandr_unavailable]"
    if bad: "\<not> bXRandRAvailable sp \<or> n < 0 \<or> int (dwOutputNum sp) \<le> n"
  proof -
    define w3 where "w3 = warn (if bXRandRAvailable sp
                 then Warn_monitor_out_of_range n ((int (dwOutputNum sp) - 1) mod 2 ^ 32)
                 else Warn_xrandr_unavailable) w2"
    have sel: "select_monitor from_view display_name sp w2 = (-1, w3)"
      using bad nm n by (auto simp: select_monitor_def w3_def Let_def)
    obtain rc h' w4 where r: "reset (h\<lparr>SESSION_HANDLE := SESSION_HANDLE old,
                                 SESSION_CAPTURE := SESSION_CAPTURE old,
                                 handle_id := handle_id old\<rparr>) w3 = (rc, h', w4)"
      by (cases "reset (h\<lparr>SESSION_HANDLE := SESSION_HANDLE old,
                                 SESSION_CAPTURE := SESSION_CAPTURE old,
                                 handle_id := handle_id old\<rparr>) w3") auto
    have w4: "warnings w4 = warnings w @
                [if bXRandRAvailable sp
                 then Warn_monitor_out_of_range n ((int (dwOutputNum sp) - 1) mod 2 ^ 32)
                 else Warn_xrandr_unavailable]"
      using reset_warnings[OF r] ww by (simp add: w3_def warn_def)
    show ?thesis using m s sel r w4 fr
      by (simp add: init_def old_def Let_def)
  qed
  have B: "\<exists>d' w'. init tosys from_view display_name framerate d w = Some (0, d', w')
           \<and> eTrackingType (capture_params d') = NVFBC_TRACKING_OUTPUT
           \<and> dwOutputId (capture_params d') = dwId (outputs sp ! nat n)
           \<and> width d' = to_int (box_w (trackedBox (outputs sp ! nat n)))
           \<and> height d' = to_int (box_h (trackedBox (outputs sp ! nat n)))
           \<and> offset_x d' = to_int (box_x (trackedBox (outputs sp ! nat n)))
           \<and> offset_y d' = to_int (box_y (trackedBox (outputs sp ! nat n)))
           \<and> warnings w' = warnings w"
    if good: "bXRandRAvailable sp \<and> 0 \<le> n \<and> n < int (dwOutputNum sp)
        \<and> nat n < length (outputs sp)"
  proof -
    have sel: "select_monitor from_view display_name sp w2 = (n, w2)"
      using good nm n by (auto simp: select_monitor_def Let_def)
    obtain rc h' w4 where r: "reset (h\<lparr>SESSION_HANDLE := SESSION_HANDLE old,
                                 SESSION_CAPTURE := SESSION_CAPTURE old,
                                 handle_id := handle_id old\<rparr>) w2 = (rc, h', w4)"
      by (cases "reset (h\<lparr>SESSION_HANDLE := SESSION_HANDLE old,
                                 SESSION_CAPTURE := SESSION_CAPTURE old,
                                 handle_id := handle_id old\<rparr>) w2") auto
    have w4: "warnings w4 = warnings w" using reset_warnings[OF r] ww by simp
    have nn: "n \<noteq> -1" using good by simp
    show ?thesis using m s sel r w4 fr good nn
      by (simp add: init_def old_def Let_def)
  qed
  have A': "\<exists>d' w'. init tosys from_view display_name framerate d w = Some (0, d', w')
           \<and> eTrackingType (capture_params d') = NVFBC_TRACKING_SCREEN
           \<and> width d' = to_int (size_w (screenSize sp))
           \<and> height d' = to_int (size_h (screenSize sp))
           \<and> (size_w (screenSize sp) < 2 ^ 31 \<and> size_h (screenSize sp) < 2 ^ 31 \<longrightarrow>
                width d' = int (size_w (screenSize sp))
                \<and> height d' = int (size_h (screenSize sp)))
           \<and> offset_x d' = offset_x d \<and> offset_y d' = offset_y d
           \<and> warnings w' = warnings w @
                [if bXRandRAvailable sp
                 then Warn_monitor_out_of_range n ((int (dwOutputNum sp) - 1) mod 2 ^ 32)
                 else Warn_xrandr_unavailable]"
    if bad: "\<not> bXRandRAvailable sp \<or> n < 0 \<or> int (dwOutputNum sp) \<le> n"
  proof -
    from A[OF bad] obtain d' w' where
      x: "init tosys from_view display_name framerate d w = Some (0, d', w')"
         "eTrackingType (capture_params d') = NVFBC_TRACKING_SCREEN"
         "width d' = to_int (size_w (screenSize sp))"
         "height d' = to_int (size_h (screenSize sp))"
         "offset_x d' = offset_x d" "offset_y d' = offset_y d"
         "warnings w' = warnings w @
                [if bXRandRAvailable sp
                 then Warn_monitor_out_of_range n ((int (dwOutputNum sp) - 1) mod 2 ^ 32)
                 else Warn_xrandr_unavailable]"
      by blast
    have "size_w (screenSize sp) < 2 ^ 31 \<and> size_h (screenSize sp) < 2 ^ 31 \<longrightarrow>
                width d' = int (size_w (screenSize sp))
                \<and> height d' = int (size_h (screenSize sp))"
      using x(3,4) by (simp add: to_int_small)
    then show ?thesis using x by blast
  qed
  have B': "\<exists>d' w'. init tosys from_view display_name framerate d w = Some (0, d', w')
           \<and> eTrackingType (capture_params d') = NVFBC_TRACKING_OUTPUT
           \<and> dwOutputId (capture_params d') = dwId (outputs sp ! nat n)
           \<and> width d' = to_int (box_w (trackedBox (outputs sp ! nat n)))
           \<and> height d' = to_int (box_h (trackedBox (outputs sp ! nat n)))
           \<and> offset_x d' = to_int (box_x (trackedBox (outputs sp ! nat n)))
           \<and> offset_y d' = to_int (box_y (trackedBox (outputs sp ! nat n)))
           \<and> (box_w (trackedBox (outputs sp ! nat n)) < 2 ^ 31
                \<and> box_h (trackedBox (outputs sp ! nat n)) < 2 ^ 31
                \<and> box_x (trackedBox (outputs sp ! nat n)) < 2 ^ 31
                \<and> box_y (trackedBox (outputs sp ! nat n)) < 2 ^ 31 \<longrightarrow>
                width d' = int (box_w (trackedBox (outputs sp ! nat n)))
                \<and> height d' = int (box_h (trackedBox (outputs sp ! nat n)))
                \<and> offset_x d' = int (box_x (trackedBox (outputs sp ! nat n)))
                \<and> offset_y d' = int (box_y (trackedBox (outputs sp ! nat n))))
           \<and> warnings w' = warnings w"
    if good: "bXRandRAvailable sp \<and> 0 \<le> n \<and> n < int (dwOutputNum sp)
        \<and> nat n < length (outputs sp)"
  proof -
    from B[OF good] obtain d' w' where
      x: "init tosys from_view display_name framerate d w = Some (0, d', w')"
         "eTrackingType (capture_params d') = NVFBC_TRACKING_OUTPUT"
         "dwOutputId (capture_params d') = dwId (outputs sp ! nat n)"
         "width d' = to_int (box_w (trackedBox (outputs sp ! nat n)))"
         "height d' = to_int (box_h (trackedBox (outputs sp ! nat n)))"
         "offset_x d' = to_int (box_x (trackedBox (outputs sp ! nat n)))"
         "offset_y d' = to_int (box_y (trackedBox (outputs sp ! nat n)))"
         "warnings w' = warnings w"
      by blast
    have "box_w (trackedBox (outputs sp ! nat n)) < 2 ^ 31
                \<and> box_h (trackedBox (outputs sp ! nat n)) < 2 ^ 31
                \<and> box_x (trackedBox (outputs sp ! nat n)) < 2 ^ 31
                \<and> box_y (trackedBox (outputs sp ! nat n)) < 2 ^ 31 \<longrightarrow>
                width d' = int (box_w (trackedBox (outputs sp ! nat n)))
                \<and> height d' = int (box_h (trackedBox (outputs sp ! nat n)))
                \<and> offset_x d' = int (box_x (trackedBox (outputs sp ! nat n)))
                \<and> offset_y d' = int (box_y (trackedBox (outputs sp ! nat n)))"
      using x(4-7) by (simp add: to_int_small)
    then show ?thesis using x by blast
  qed
  show ?thesis using A' B' by blast
qed

theorem init_output_selection_witness:
  "(\<exists>d' w'. init False digit_view ''5'' 60 display60 world_direct = Some (0, d', w')
      \<and> eTrackingType (capture_params d') = NVFBC_TRACKING_SCREEN
      \<and> width d' = 3200 \<and> height d' = 1080
      \<and> warnings w' = [Warn_monitor_out_of_range 5 1])
   \<and> (\<exists>d' w'. init False digit_view ''1'' 60 display60 world_direct = Some (0, d', w')
      \<and> eTrackingType (capture_params d') = NVFBC_TRACKING_OUTPUT
      \<and> width d' = 1280 \<and> height d' = 1024 \<and> offset_x d' = 1920 \<and> offset_y d' = 0
      \<and> warnings w' = [])"
proof -
  have c1: "status (call_replies world_direct (ncalls world_direct)) = NVFBC_SUCCESS"
    and c2: "status (call_replies world_direct (Suc (ncalls world_direct))) = NVFBC_SUCCESS"
    and sp: "two_outputs = out_status (call_replies world_direct (Suc (ncalls world_direct)))"
    by (simp_all add: world_direct_def fresh_world_def reply_ok_def)
  have fr: "(60::int) \<noteq> 0" by simp
  have w: "warnings world_direct = []" by (simp add: world_direct_def fresh_world_def)
  have a: "\<exists>d' w'. init False digit_view ''5'' 60 display60 world_direct = Some (0, d', w')
      \<and> eTrackingType (capture_params d') = NVFBC_TRACKING_SCREEN
      \<and> width d' = 3200 \<and> height d' = 1080
      \<and> warnings w' = [Warn_monitor_out_of_range 5 1]"
    using init_output_selection[OF c1 c2 sp _ fr, of 5 digit_view "''5''" False display60] w
    by (auto simp: two_outputs_def digit_view_def to_int_def)
  have b: "\<exists>d' w'. init False digit_view ''1'' 60 display60 world_direct = Some (0, d', w')
      \<and> eTrackingType (capture_params d') = NVFBC_TRACKING_OUTPUT
      \<and> width d' = 1280 \<and> height d' = 1024 \<and> offset_x d' = 1920 \<and> offset_y d' = 0
      \<and> warnings w' = []"
    using init_output_selection[OF c1 c2 sp _ fr, of 1 digit_view "''1''" False display60] w
    by (auto simp: two_outputs_def digit_view_def to_int_def)
  show ?thesis using a b by blast
qed


end
